theory Spec2Isabelle
  imports Main "HOL-Library.Word"
begin

unbundle bit_operations_syntax

section \<open>libArcus: the socket driver of \<^verbatim>\<open>src/Socket_p.h\<close>\<close>

text \<open>
  A shallow embedding of \<^verbatim>\<open>SocketPrivate\<close>: its fields are a record, each member
  function is a function from the record to the record, and the operating system is a part
  of the record (the value of \<^verbatim>\<open>errno\<close>, the outcomes the next calls of
  \<^verbatim>\<open>recv\<close> and of \<^verbatim>\<open>send\<close> will have) or an argument of one loop iteration
  (what the other system calls, the allocator and the clock answer). Every system call that
  fails writes \<^verbatim>\<open>errno\<close>. Everything the driver does to the outside (listener
  callbacks, bytes handed to \<^verbatim>\<open>send\<close>, mutex operations, accesses to the two queues)
  is appended to a chronological trace. The embedding is of the POSIX build
  (\<^verbatim>\<open>_WIN32\<close> undefined).
\<close>

subsection \<open>Types of the headers\<close>

type_synonym byte = "8 word"

text \<open>
  Modelled from the spec: \<^verbatim>\<open>Types.h\<close> (the enum \<^verbatim>\<open>SocketState\<close>) is not among the
  sources; the states are the ones of the spec's data model and of the \<^verbatim>\<open>switch\<close> in
  \<^verbatim>\<open>run\<close>.
\<close>
datatype SocketState =
  Initial | Connecting | Opening | Listening | Connected | Closing | Closed | Error

text \<open>
  Modelled from the spec: \<^verbatim>\<open>Error.h\<close> is not among the sources. The codes are the
  spec's taxonomy; an error is a code, a text and a fatal flag that is clear until
  \<^verbatim>\<open>setFatalError\<close> sets it.
\<close>
datatype ErrorCode =
  AcceptFailedError | ReceiveFailedError | ParseFailedError | UnknownMessageTypeError
  | ConnectionResetError | OutOfMemoryError

record ArcusError =
  error_code :: ErrorCode
  error_message :: string
  fatal_error :: bool

definition mkError :: "ErrorCode \<Rightarrow> string \<Rightarrow> ArcusError" where
  "mkError c m = \<lparr>error_code = c, error_message = m, fatal_error = False\<rparr>"

definition setFatalError :: "bool \<Rightarrow> ArcusError \<Rightarrow> ArcusError" where
  "setFatalError b e = e\<lparr>fatal_error := b\<rparr>"

text \<open>
  Modelled from the spec: \<^verbatim>\<open>WireMessage_p.h\<close> is not among the sources. A frame in
  progress has the fields of the spec's WireFrame; a new frame awaits its header, is valid and
  has received nothing; the remaining size is the declared size minus the bytes received; the
  payload buffer is allocated with exactly the declared size; the frame is complete once the
  declared number of bytes has been accumulated.
\<close>
datatype MessageState =
  MessageStateHeader | MessageStateSize | MessageStateType | MessageStateData
  | MessageStateDispatch

record WireMessage =
  msg_state :: MessageState
  msg_size :: nat
  msg_size_received :: nat
  msg_type :: "32 word"
  msg_data :: "byte list"
  msg_valid :: bool

definition new_WireMessage :: WireMessage where
  "new_WireMessage =
     \<lparr>msg_state = MessageStateHeader, msg_size = 0, msg_size_received = 0, msg_type = 0,
      msg_data = [], msg_valid = True\<rparr>"

definition getRemainingSize :: "WireMessage \<Rightarrow> nat" where
  "getRemainingSize m = msg_size m - msg_size_received m"

definition allocateData :: "WireMessage \<Rightarrow> WireMessage" where
  "allocateData m = m\<lparr>msg_data := replicate (msg_size m) 0\<rparr>"

definition isComplete :: "WireMessage \<Rightarrow> bool" where
  "isComplete m = (msg_size m \<le> msg_size_received m)"

text \<open>
  An application message, as the driver sees it through the type registry and the
  serialisation library: the identifier \<^verbatim>\<open>getMessageTypeId\<close> gives it and the bytes
  \<^verbatim>\<open>SerializeAsString\<close> produces (\<^verbatim>\<open>ByteSize\<close> is their number).
\<close>
record message =
  type_id :: "32 word"
  serialized :: "byte list"

subsection \<open>The environment and the trace\<close>

text \<open>
  One call of \<^verbatim>\<open>recv\<close> either delivers bytes (none at all when the peer has closed) or
  returns -1 and sets \<^verbatim>\<open>errno\<close>.
\<close>
datatype recv_outcome = RecvData "byte list" | RecvError int

text \<open>
  One call of \<^verbatim>\<open>send\<close> either accepts a number of the bytes handed to it or returns
  -1 and sets \<^verbatim>\<open>errno\<close>.
\<close>
datatype send_outcome = SendAccepts nat | SendError int

datatype mutex = sendQueueMutex | receiveQueueMutex

text \<open>
  The accesses to a queue: \<^verbatim>\<open>size()\<close> with its result, \<^verbatim>\<open>front()\<close> with the
  message it returns, \<^verbatim>\<open>pop_front()\<close>, and \<^verbatim>\<open>push_back\<close> of a message.
\<close>
datatype queue_op = QSize nat | QFront message | QPopFront | QPushBack message

text \<open>
  In \<open>QueueOp mu op\<close> the queue is named by the mutex declared for it:
  \<^verbatim>\<open>sendQueue\<close> by \<^verbatim>\<open>sendQueueMutex\<close>, \<^verbatim>\<open>receiveQueue\<close> by
  \<^verbatim>\<open>receiveQueueMutex\<close>.
\<close>
datatype event =
  ErrorNotify nat ArcusError
  | StateChangedNotify nat SocketState
  | MessageReceivedNotify nat
  | SockSend int "byte list"
  | SockClose int
  | SetReceiveTimeout int int
  | MutexLock mutex
  | MutexUnlock mutex
  | QueueOp mutex queue_op
  | HandleMessageCall WireMessage

datatype syscall =
  sys_socket | sys_connect | sys_bind | sys_listen | sys_accept | sys_close | sys_setsockopt

text \<open>
  What the system answers during one iteration of the loop in \<^verbatim>\<open>run\<close>: the value
  each system call returns (each is called at most once in an iteration), the value a failing
  call leaves in \<^verbatim>\<open>errno\<close>, whether \<^verbatim>\<open>new\<close> throws, and the clock. The time
  points of \<^verbatim>\<open>system_clock\<close> count ticks of the clock's own period, which the
  implementation chooses; \<open>ticks_per_ms\<close> of them make one millisecond (1000000 where the
  clock counts nanoseconds).
\<close>
record tick_env =
  socket_result :: int
  connect_result :: int
  bind_result :: int
  listen_result :: int
  accept_result :: int
  close_result :: int
  setsockopt_result :: int
  failure_errno :: "syscall \<Rightarrow> int"
  alloc_fails :: bool
  clock_now :: int
  ticks_per_ms :: int

datatype fault = NullDereference

definition EAGAIN :: int where
  "EAGAIN = 11"

subsection \<open>The class\<close>

text \<open>
  Listeners are identified by a number, in registration order. The registry
  \<^verbatim>\<open>message_types\<close> maps a known type to the parser of its payload. The time point
  \<^verbatim>\<open>lastKeepAliveSent\<close> is a number of clock ticks. The last four fields are the
  environment: \<^verbatim>\<open>errno\<close>, the outcomes of the coming \<^verbatim>\<open>recv\<close> calls, the
  outcomes of the coming \<^verbatim>\<open>send\<close> calls, and the trace, which also records every
  entry into \<^verbatim>\<open>handleMessage\<close>.
\<close>
record SocketPrivate =
  state :: SocketState
  next_state :: SocketState
  listeners :: "nat list"
  message_types :: "32 word \<Rightarrow> (byte list \<Rightarrow> message option) option"
  current_message :: "WireMessage option"
  sendQueue :: "message list"
  receiveQueue :: "message list"
  socketId :: int
  last_error :: ArcusError
  lastKeepAliveSent :: int
  errno :: int
  incoming :: "recv_outcome list"
  outgoing :: "send_outcome list"
  trace :: "event list"

definition VERSION_MAJOR :: "32 word" where
  "VERSION_MAJOR = 1"

definition VERSION_MINOR :: "32 word" where
  "VERSION_MINOR = 0"

definition ARCUS_SIGNATURE :: "32 word" where
  "ARCUS_SIGNATURE = 0x2BAD"

definition SIG :: "32 word \<Rightarrow> 32 word" where
  "SIG n = drop_bit 16 (n AND 0xffff0000)"

definition keepAliveRate :: int where
  "keepAliveRate = 500"

text \<open>
  \<^verbatim>\<open>duration_cast<milliseconds>\<close> of a difference of time points, its \<^verbatim>\<open>count()\<close>:
  the number of ticks divided by the ticks of a millisecond, rounded towards zero.
\<close>
definition duration_cast_ms :: "int \<Rightarrow> int \<Rightarrow> int" where
  "duration_cast_ms tpm d = (if 0 \<le> d then d div tpm else - ((- d) div tpm))"

subsection \<open>Byte order\<close>

text \<open>\<^verbatim>\<open>ntohl\<close> of four received bytes, and the four bytes of \<^verbatim>\<open>htonl\<close> of a value.\<close>
fun ntohl :: "byte list \<Rightarrow> 32 word" where
  "ntohl [a, b, c, d] =
     push_bit 24 (ucast a) OR push_bit 16 (ucast b) OR push_bit 8 (ucast c) OR ucast d"
| "ntohl _ = 0"

definition htonl :: "32 word \<Rightarrow> byte list" where
  "htonl w = [ucast (drop_bit 24 w), ucast (drop_bit 16 w), ucast (drop_bit 8 w), ucast w]"

subsection \<open>Reporting errors\<close>

definition error :: "ErrorCode \<Rightarrow> string \<Rightarrow> SocketPrivate \<Rightarrow> SocketPrivate" where
  "error c m s =
     (let e = mkError c m
      in s\<lparr>last_error := e, trace := trace s @ map (\<lambda>l. ErrorNotify l e) (listeners s)\<rparr>)"

definition fatalError :: "ErrorCode \<Rightarrow> string \<Rightarrow> SocketPrivate \<Rightarrow> SocketPrivate" where
  "fatalError c m s =
     (let e = setFatalError True (mkError c m)
      in s\<lparr>last_error := e, current_message := None, next_state := Error,
           trace := trace s @ map (\<lambda>l. ErrorNotify l e) (listeners s)\<rparr>)"

subsection \<open>Reading from the socket\<close>

text \<open>
  \<^verbatim>\<open>recv\<close> asked for \<open>n\<close> bytes: the number returned, the bytes stored, the state after.
  Bytes beyond the \<open>n\<close> asked for stay in the stream; when no outcome is left the receive
  timeout expires.
\<close>
definition recv :: "nat \<Rightarrow> SocketPrivate \<Rightarrow> int \<times> byte list \<times> SocketPrivate" where
  "recv n s =
     (case incoming s of
        [] \<Rightarrow> (-1, [], s\<lparr>errno := EAGAIN\<rparr>)
      | RecvError e # rest \<Rightarrow> (-1, [], s\<lparr>errno := e, incoming := rest\<rparr>)
      | RecvData bs # rest \<Rightarrow>
          (int (length (take n bs)), take n bs,
           s\<lparr>incoming := (if n < length bs then RecvData (drop n bs) # rest else rest)\<rparr>))"

text \<open>The result, the value of \<^verbatim>\<open>*dest\<close> afterwards, and the state.\<close>
definition readInt32 :: "32 word \<Rightarrow> SocketPrivate \<Rightarrow> int \<times> 32 word \<times> SocketPrivate" where
  "readInt32 dest s =
     (case recv 4 s of (num, buffer, s') \<Rightarrow>
        if num \<noteq> 4 then (-1, dest, s') else (0, ntohl buffer, s'))"

definition readBytes :: "nat \<Rightarrow> SocketPrivate \<Rightarrow> int \<times> byte list \<times> SocketPrivate" where
  "readBytes sz s =
     (case recv sz s of (num, bytes, s') \<Rightarrow>
        if num = -1 then (-1, [], s') else (num, bytes, s'))"

text \<open>The bytes \<^verbatim>\<open>recv\<close> stored at offset \<^verbatim>\<open>getSizeReceived()\<close> of the buffer.\<close>
definition store_at :: "nat \<Rightarrow> byte list \<Rightarrow> byte list \<Rightarrow> byte list" where
  "store_at off bytes buf = take off buf @ bytes @ drop (off + length bytes) buf"

subsection \<open>Sending and dispatching\<close>

text \<open>
  \<^verbatim>\<open>send\<close> of a buffer on the socket: the value returned and the state after. When
  no outcome is left the whole buffer is accepted.
\<close>
definition send :: "byte list \<Rightarrow> SocketPrivate \<Rightarrow> int \<times> SocketPrivate" where
  "send bytes s =
     (let s1 = s\<lparr>trace := trace s @ [SockSend (socketId s) bytes]\<rparr>
      in case outgoing s of
           [] \<Rightarrow> (int (length bytes), s1)
         | SendAccepts n # rest \<Rightarrow> (int (min n (length bytes)), s1\<lparr>outgoing := rest\<rparr>)
         | SendError e # rest \<Rightarrow> (-1, s1\<lparr>errno := e, outgoing := rest\<rparr>))"

text \<open>The four results are assigned to \<^verbatim>\<open>sent_size\<close> and never looked at.\<close>
definition sendMessage :: "SocketPrivate \<Rightarrow> message \<Rightarrow> SocketPrivate" where
  "sendMessage s m =
     (let hdr = htonl (push_bit 16 ARCUS_SIGNATURE OR push_bit 8 VERSION_MAJOR OR VERSION_MINOR);
          s1 = snd (send hdr s);
          sz = htonl (word_of_nat (length (serialized m)));
          s2 = snd (send sz s1);
          type = htonl (type_id m);
          s3 = snd (send type s2);
          data = serialized m
      in snd (send data s3))"

definition handleMessage :: "WireMessage \<Rightarrow> SocketPrivate \<Rightarrow> SocketPrivate" where
  "handleMessage wire_message s0 =
     (let s = s0\<lparr>trace := trace s0 @ [HandleMessageCall wire_message]\<rparr>
      in case message_types s (msg_type wire_message) of
           None \<Rightarrow> error UnknownMessageTypeError ''Unknown message type'' s
         | Some parse \<Rightarrow>
             (case parse (take (msg_size wire_message) (msg_data wire_message)) of
                None \<Rightarrow> error ParseFailedError ''Failed to parse message'' s
              | Some msg \<Rightarrow>
                  s\<lparr>receiveQueue := receiveQueue s @ [msg],
                    trace := trace s @ [MutexLock receiveQueueMutex,
                                        QueueOp receiveQueueMutex (QPushBack msg),
                                        MutexUnlock receiveQueueMutex]
                               @ map MessageReceivedNotify (listeners s)\<rparr>))"

subsection \<open>One receive cycle\<close>

text \<open>
  \<^verbatim>\<open>receiveNextMessage\<close> is a sequence of guarded blocks, one per parse stage; a
  \<^verbatim>\<open>return\<close> inside a block ends the cycle, otherwise control falls into the next block.
  Each block is a function that ends by calling the next one. Every access through
  \<^verbatim>\<open>current_message\<close> when the pointer is null is the fault \<open>NullDereference\<close>.
\<close>

definition receive_dispatch :: "SocketPrivate \<Rightarrow> fault + SocketPrivate" where
  "receive_dispatch s =
     (case current_message s of
        None \<Rightarrow> Inl NullDereference
      | Some m \<Rightarrow>
          if msg_state m = MessageStateDispatch
          then Inr ((handleMessage m s)\<lparr>current_message := None\<rparr>)
          else Inr s)"

definition receive_data :: "SocketPrivate \<Rightarrow> fault + SocketPrivate" where
  "receive_data s =
     (case current_message s of
        None \<Rightarrow> Inl NullDereference
      | Some m \<Rightarrow>
          if msg_state m = MessageStateData
          then (case readBytes (getRemainingSize m) s of (result, bytes, s1) \<Rightarrow>
                  if result = -1
                  then (if errno s1 \<noteq> EAGAIN
                        then receive_dispatch (s1\<lparr>current_message := None\<rparr>)
                        else receive_dispatch s1)
                  else (let m1 = m\<lparr>msg_data := store_at (msg_size_received m) bytes (msg_data m),
                                    msg_size_received := msg_size_received m + nat result\<rparr>
                        in if isComplete m1
                           then (if \<not> msg_valid m1
                                 then Inr (s1\<lparr>current_message := None\<rparr>)
                                 else receive_dispatch
                                        (s1\<lparr>current_message :=
                                              Some (m1\<lparr>msg_state := MessageStateDispatch\<rparr>)\<rparr>))
                           else receive_dispatch (s1\<lparr>current_message := Some m1\<rparr>)))
          else receive_dispatch s)"

definition receive_type :: "tick_env \<Rightarrow> SocketPrivate \<Rightarrow> fault + SocketPrivate" where
  "receive_type env s =
     (case current_message s of
        None \<Rightarrow> Inl NullDereference
      | Some m \<Rightarrow>
          if msg_state m = MessageStateType
          then (case readInt32 0 s of (result, type, s1) \<Rightarrow>
                  if result \<noteq> 0 \<and> errno s1 = EAGAIN then Inr s1
                  else (let m1 = (if result \<noteq> 0 then m\<lparr>msg_valid := False\<rparr> else m)
                        in if alloc_fails env
                           then Inr (fatalError ReceiveFailedError ''Out of memory''
                                       (s1\<lparr>current_message := Some m1\<rparr>))
                           else receive_data
                                  (s1\<lparr>current_message :=
                                        Some ((allocateData m1)
                                                \<lparr>msg_type := type,
                                                 msg_state := MessageStateData\<rparr>)\<rparr>)))
          else receive_data s)"

definition receive_size :: "tick_env \<Rightarrow> SocketPrivate \<Rightarrow> fault + SocketPrivate" where
  "receive_size env s =
     (case current_message s of
        None \<Rightarrow> Inl NullDereference
      | Some m \<Rightarrow>
          if msg_state m = MessageStateSize
          then (case readInt32 0 s of (result, sz, s1) \<Rightarrow>
                  if result \<noteq> 0
                  then (if errno s1 = EAGAIN then Inr s1
                        else Inr (error ReceiveFailedError ''Size invalid'' s1))
                  else if sint sz < 0
                  then Inr (error ReceiveFailedError ''Size invalid'' s1)
                  else receive_type env
                         (s1\<lparr>current_message :=
                               Some (m\<lparr>msg_size := nat (sint sz),
                                      msg_state := MessageStateType\<rparr>)\<rparr>))
          else receive_type env s)"

definition receive_header :: "tick_env \<Rightarrow> SocketPrivate \<Rightarrow> fault + SocketPrivate" where
  "receive_header env s =
     (case current_message s of
        None \<Rightarrow> Inl NullDereference
      | Some m \<Rightarrow>
          if msg_state m = MessageStateHeader
          then (case readInt32 0 s of (result, header, s1) \<Rightarrow>
                  if header = 0 then Inr s1
                  else if SIG header \<noteq> ARCUS_SIGNATURE
                  then Inr (error ReceiveFailedError ''Header mismatch'' s1)
                  else receive_size env
                         (s1\<lparr>current_message := Some (m\<lparr>msg_state := MessageStateSize\<rparr>)\<rparr>))
          else receive_size env s)"

definition receiveNextMessage :: "tick_env \<Rightarrow> SocketPrivate \<Rightarrow> fault + SocketPrivate" where
  "receiveNextMessage env s =
     receive_header env
       (if current_message s = None then s\<lparr>current_message := Some new_WireMessage\<rparr> else s)"

subsection \<open>The keepalive\<close>

definition keepalive_frame :: "byte list" where
  "keepalive_frame = [0, 0, 0, 0]"

definition checkConnectionState :: "tick_env \<Rightarrow> SocketPrivate \<Rightarrow> SocketPrivate" where
  "checkConnectionState env s =
     (let now = clock_now env;
          diff = duration_cast_ms (ticks_per_ms env) (now - lastKeepAliveSent s)
      in if diff > keepAliveRate
         then (case send keepalive_frame s of (result, s1) \<Rightarrow>
                 (let s2 = (if result = -1
                            then (error ConnectionResetError ''Connection reset by peer'' s1)
                                   \<lparr>next_state := Closing\<rparr>
                            else s1)
                  in s2\<lparr>lastKeepAliveSent := now\<rparr>))
         else s)"

subsection \<open>The driver loop\<close>

text \<open>A system call has returned \<open>r\<close>: when that is -1 it has set \<^verbatim>\<open>errno\<close>.\<close>
definition returned :: "tick_env \<Rightarrow> syscall \<Rightarrow> int \<Rightarrow> SocketPrivate \<Rightarrow> SocketPrivate" where
  "returned env call r s = (if r = -1 then s\<lparr>errno := failure_errno env call\<rparr> else s)"

definition setSocketReceiveTimeout ::
  "tick_env \<Rightarrow> int \<Rightarrow> int \<Rightarrow> SocketPrivate \<Rightarrow> SocketPrivate" where
  "setSocketReceiveTimeout env fd timeout s =
     returned env sys_setsockopt (setsockopt_result env)
       (s\<lparr>trace := trace s @ [SetReceiveTimeout fd timeout]\<rparr>)"

text \<open>
  The loop that empties \<^verbatim>\<open>sendQueue\<close> into the local list \<^verbatim>\<open>messagesToSend\<close>,
  front first: the queue and the batch in the end, and the trace with every access to the
  queue appended, in the order the loop makes them.
\<close>
fun drain ::
  "message list \<Rightarrow> message list \<Rightarrow> event list \<Rightarrow> message list \<times> message list \<times> event list"
  where
  "drain [] messagesToSend tr = ([], messagesToSend, tr @ [QueueOp sendQueueMutex (QSize 0)])"
| "drain (m # q) messagesToSend tr =
     drain q (messagesToSend @ [m])
       (tr @ [QueueOp sendQueueMutex (QSize (length (m # q))),
              QueueOp sendQueueMutex (QFront m),
              QueueOp sendQueueMutex QPopFront])"

text \<open>The locked section of the \<^verbatim>\<open>Connected\<close> case: the batch and the state after.\<close>
definition drainSendQueue :: "SocketPrivate \<Rightarrow> message list \<times> SocketPrivate" where
  "drainSendQueue s =
     (let s1 = s\<lparr>trace := trace s @ [MutexLock sendQueueMutex]\<rparr>
      in case drain (sendQueue s1) [] (trace s1) of (q, messagesToSend, tr) \<Rightarrow>
           (messagesToSend,
            s1\<lparr>sendQueue := q, trace := tr @ [MutexUnlock sendQueueMutex]\<rparr>))"

text \<open>
  The first part of the \<^verbatim>\<open>Connected\<close> case: the locked section, then
  \<^verbatim>\<open>sendMessage\<close> on each message of the batch in turn.
\<close>
definition sendQueued :: "SocketPrivate \<Rightarrow> SocketPrivate" where
  "sendQueued s =
     (case drainSendQueue s of (messagesToSend, s1) \<Rightarrow> foldl sendMessage s1 messagesToSend)"

text \<open>
  The four \<^verbatim>\<open>send\<close> calls of one frame as the wire format prescribes them: the word
  of signature \<^verbatim>\<open>0x2BAD\<close>, major version 1 and minor version 0, the payload size, the
  type tag, all in network byte order, then the payload.
\<close>
definition spec_frame_sends :: "int \<Rightarrow> message \<Rightarrow> event list" where
  "spec_frame_sends fd m =
     [SockSend fd [0x2B, 0xAD, 0x01, 0x00],
      SockSend fd (htonl (word_of_nat (length (serialized m)))),
      SockSend fd (htonl (type_id m)),
      SockSend fd (serialized m)]"

text \<open>
  The accesses a complete drain of a queue makes, as the loop is written: the size is read,
  and while it is not zero the front message is read and popped and the size read again.
\<close>
fun drain_accesses :: "message list \<Rightarrow> event list" where
  "drain_accesses [] = [QueueOp sendQueueMutex (QSize 0)]"
| "drain_accesses (m # q) =
     [QueueOp sendQueueMutex (QSize (Suc (length q))), QueueOp sendQueueMutex (QFront m),
      QueueOp sendQueueMutex QPopFront] @ drain_accesses q"

text \<open>The \<^verbatim>\<open>switch\<close> of one iteration.\<close>
definition run_switch :: "tick_env \<Rightarrow> SocketPrivate \<Rightarrow> fault + SocketPrivate" where
  "run_switch env s =
     (case state s of
        Connecting \<Rightarrow>
          (let s1 = (returned env sys_socket (socket_result env) s)
                      \<lparr>socketId := socket_result env\<rparr>;
               s2 = returned env sys_connect (connect_result env) s1
           in if connect_result env \<noteq> 0 then Inr s2
              else Inr ((setSocketReceiveTimeout env (socketId s2) 250 s2)
                          \<lparr>next_state := Connected\<rparr>))
      | Opening \<Rightarrow>
          (let s1 = (returned env sys_socket (socket_result env) s)
                      \<lparr>socketId := socket_result env\<rparr>;
               s2 = returned env sys_bind (bind_result env) s1
           in if bind_result env \<noteq> 0 then Inr s2
              else Inr (s2\<lparr>next_state := Listening\<rparr>))
      | Listening \<Rightarrow>
          (let s0 = returned env sys_listen (listen_result env) s;
               newSocket = accept_result env;
               sa = returned env sys_accept newSocket s0;
               s1 = (if newSocket = -1
                     then (fatalError AcceptFailedError
                             ''Could not accept the incoming connection'' sa)
                            \<lparr>next_state := Connected\<rparr>
                     else sa);
               s2 = returned env sys_close (close_result env)
                      (s1\<lparr>trace := trace s1 @ [SockClose (socketId s1)]\<rparr>);
               s3 = s2\<lparr>socketId := newSocket\<rparr>
           in Inr (setSocketReceiveTimeout env (socketId s3) 250 s3))
      | Connected \<Rightarrow>
          (case receiveNextMessage env (sendQueued s) of
             Inl f \<Rightarrow> Inl f
           | Inr s3 \<Rightarrow>
               if next_state s3 \<noteq> Error then Inr (checkConnectionState env s3)
               else Inr s3)
      | Closing \<Rightarrow>
          Inr ((returned env sys_close (close_result env)
                  (s\<lparr>trace := trace s @ [SockClose (socketId s)]\<rparr>))
                 \<lparr>next_state := Closed\<rparr>)
      | _ \<Rightarrow> Inr s)"

text \<open>The commit of the pending state that ends an iteration.\<close>
definition run_commit :: "SocketPrivate \<Rightarrow> SocketPrivate" where
  "run_commit s =
     (if next_state s \<noteq> state s
      then s\<lparr>state := next_state s,
             trace := trace s @ map (\<lambda>l. StateChangedNotify l (next_state s)) (listeners s)\<rparr>
      else s)"

definition run_iteration :: "tick_env \<Rightarrow> SocketPrivate \<Rightarrow> fault + SocketPrivate" where
  "run_iteration env s =
     (case run_switch env s of Inl f \<Rightarrow> Inl f | Inr s' \<Rightarrow> Inr (run_commit s'))"

text \<open>The condition of the \<^verbatim>\<open>while\<close>.\<close>
definition running :: "SocketPrivate \<Rightarrow> bool" where
  "running s = (state s \<noteq> Closed \<and> state s \<noteq> Error)"

text \<open>
  The loop, one environment per iteration. It may run forever (a peer that never answers), so
  the environments are its fuel: \<open>None\<close> when they run out while the condition still holds.
\<close>
fun run :: "tick_env list \<Rightarrow> SocketPrivate \<Rightarrow> (fault + SocketPrivate) option" where
  "run [] s = (if running s then None else Some (Inr s))"
| "run (env # envs) s =
     (if running s
      then (case run_iteration env s of Inl f \<Rightarrow> Some (Inl f) | Inr s' \<Rightarrow> run envs s')
      else Some (Inr s))"

subsection \<open>Reading the trace\<close>

fun is_state_changed :: "event \<Rightarrow> bool" where
  "is_state_changed (StateChangedNotify l st) = True"
| "is_state_changed _ = False"

fun is_send :: "event \<Rightarrow> bool" where
  "is_send (SockSend fd bytes) = True"
| "is_send _ = False"

text \<open>An access to the queue that the mutex \<open>mu\<close> is declared for.\<close>
fun touches :: "mutex \<Rightarrow> event \<Rightarrow> bool" where
  "touches mu (QueueOp mu' op) = (mu' = mu)"
| "touches mu _ = False"

text \<open>
  The events of a receive cycle: neither a state change, nor bytes sent, nor an access to the
  send queue.
\<close>
definition quiet :: "event \<Rightarrow> bool" where
  "quiet ev = (\<not> is_state_changed ev \<and> \<not> is_send ev \<and> \<not> touches sendQueueMutex ev)"

text \<open>The frames \<^verbatim>\<open>handleMessage\<close> was entered with.\<close>
fun handled :: "event list \<Rightarrow> WireMessage list" where
  "handled [] = []"
| "handled (HandleMessageCall m # evs) = m # handled evs"
| "handled (_ # evs) = handled evs"

text \<open>The frame a receive cycle works on: the one in progress, or a new one.\<close>
definition frame_in_progress :: "SocketPrivate \<Rightarrow> WireMessage" where
  "frame_in_progress s =
     (case current_message s of None \<Rightarrow> new_WireMessage | Some m \<Rightarrow> m)"

definition stage :: "SocketPrivate \<Rightarrow> MessageState" where
  "stage s = msg_state (frame_in_progress s)"

text \<open>
  The locking discipline, read off a stretch of the trace that starts with the mutexes in
  \<open>held\<close> locked by the driver: a mutex is locked only when the driver does not hold it
  and unlocked only when it does; a queue is accessed only while the driver holds its mutex;
  a send on the socket and a callback of a listener happen only while the driver holds no
  mutex; and in the end no mutex is held.
\<close>
fun lock_discipline :: "mutex list \<Rightarrow> event list \<Rightarrow> bool" where
  "lock_discipline held [] = (held = [])"
| "lock_discipline held (MutexLock mu # evs) =
     (mu \<notin> set held \<and> lock_discipline (mu # held) evs)"
| "lock_discipline held (MutexUnlock mu # evs) =
     (mu \<in> set held \<and> lock_discipline (removeAll mu held) evs)"
| "lock_discipline held (QueueOp mu op # evs) = (mu \<in> set held \<and> lock_discipline held evs)"
| "lock_discipline held (SockSend fd bytes # evs) = (held = [] \<and> lock_discipline held evs)"
| "lock_discipline held (ErrorNotify l e # evs) = (held = [] \<and> lock_discipline held evs)"
| "lock_discipline held (StateChangedNotify l st # evs) =
     (held = [] \<and> lock_discipline held evs)"
| "lock_discipline held (MessageReceivedNotify l # evs) =
     (held = [] \<and> lock_discipline held evs)"
| "lock_discipline held (SockClose fd # evs) = lock_discipline held evs"
| "lock_discipline held (SetReceiveTimeout fd t # evs) = lock_discipline held evs"
| "lock_discipline held (HandleMessageCall m # evs) = lock_discipline held evs"

text \<open>An event that is not the notification of a fatal error.\<close>
fun advisory :: "event \<Rightarrow> bool" where
  "advisory (ErrorNotify l e) = (\<not> fatal_error e)"
| "advisory _ = True"

text \<open>A frame that may be dispatched: complete and valid.\<close>
definition dispatchable :: "WireMessage \<Rightarrow> bool" where
  "dispatchable m = (msg_valid m \<and> isComplete m)"

text \<open>
  \<open>calm s s'\<close>: from \<open>s\<close> to \<open>s'\<close> the connection state, the pending state, the
  listeners, the registry, the send queue, the socket, the keepalive time and the outcomes of
  the coming sends are the same, no fatal error has been recorded, and the trace has grown by
  events that are neither state changes, nor sends, nor fatal errors, and that keep the
  locking discipline.
\<close>
definition calm :: "SocketPrivate \<Rightarrow> SocketPrivate \<Rightarrow> bool" where
  "calm s s' =
     (state s' = state s \<and> next_state s' = next_state s \<and> listeners s' = listeners s
      \<and> message_types s' = message_types s \<and> sendQueue s' = sendQueue s
      \<and> socketId s' = socketId s \<and> lastKeepAliveSent s' = lastKeepAliveSent s
      \<and> outgoing s' = outgoing s
      \<and> (last_error s' = last_error s \<or> \<not> fatal_error (last_error s'))
      \<and> (\<exists>ev. trace s' = trace s @ ev \<and> list_all quiet ev \<and> list_all advisory ev
                \<and> lock_discipline [] ev))"

text \<open>
  What a receive cycle can do: stay calm, or stay calm up to a failed allocation of the
  payload buffer and report it with \<^verbatim>\<open>fatalError\<close>.
\<close>
definition cycle_result :: "tick_env \<Rightarrow> SocketPrivate \<Rightarrow> SocketPrivate \<Rightarrow> bool" where
  "cycle_result env s s' =
     (calm s s' \<or>
      (alloc_fails env \<and>
       (\<exists>s1. calm s s1 \<and> s' = fatalError ReceiveFailedError ''Out of memory'' s1)))"

text \<open>
  \<open>dispatch_safe s s'\<close>: from \<open>s\<close> to \<open>s'\<close> the trace has grown, every frame
  \<^verbatim>\<open>handleMessage\<close> was entered with is complete and valid, and no frame waiting for
  dispatch is left behind.
\<close>
definition dispatch_safe :: "SocketPrivate \<Rightarrow> SocketPrivate \<Rightarrow> bool" where
  "dispatch_safe s s' =
     ((\<exists>ev. trace s' = trace s @ ev \<and> list_all dispatchable (handled ev))
      \<and> stage s' \<noteq> MessageStateDispatch)"

text \<open>A frame waiting for dispatch, if there is one, is complete and valid.\<close>
definition dispatch_ready :: "SocketPrivate \<Rightarrow> bool" where
  "dispatch_ready s =
     (case current_message s of
        None \<Rightarrow> True
      | Some m \<Rightarrow> if msg_state m = MessageStateDispatch then dispatchable m else True)"

subsection \<open>States used as concrete inputs\<close>

definition example_env :: tick_env where
  "example_env =
     \<lparr>socket_result = 3, connect_result = 0, bind_result = 0, listen_result = 0,
      accept_result = 4, close_result = 0, setsockopt_result = 0,
      failure_errno = (\<lambda>call. 103), alloc_fails = False, clock_now = 1000,
      ticks_per_ms = 1000000\<rparr>"

text \<open>A socket with two listeners and an empty registry, in a given state.\<close>
definition example_socket :: "SocketState \<Rightarrow> recv_outcome list \<Rightarrow> SocketPrivate" where
  "example_socket st inc =
     \<lparr>state = st, next_state = st, listeners = [0, 1], message_types = (\<lambda>t. None),
      current_message = None, sendQueue = [], receiveQueue = [], socketId = 3,
      last_error = mkError ReceiveFailedError [], lastKeepAliveSent = 900, errno = 0,
      incoming = inc, outgoing = [], trace = []\<rparr>"

section \<open>What the reads leave untouched\<close>

lemma recv_fields:
  "recv n s = (num, bs, s1) \<Longrightarrow> s1 = s\<lparr>errno := errno s1, incoming := incoming s1\<rparr>"
  by (auto simp: recv_def split: list.splits recv_outcome.splits)

lemma readInt32_fields:
  "readInt32 d s = (r, v, s1) \<Longrightarrow> s1 = s\<lparr>errno := errno s1, incoming := incoming s1\<rparr>"
  by (auto simp: readInt32_def split: prod.splits if_splits dest: recv_fields)

lemma readBytes_fields:
  "readBytes n s = (r, v, s1) \<Longrightarrow> s1 = s\<lparr>errno := errno s1, incoming := incoming s1\<rparr>"
  by (auto simp: readBytes_def split: prod.splits if_splits dest: recv_fields)

lemma readInt32_current_message:
  "readInt32 d s = (r, v, s1) \<Longrightarrow> current_message s1 = current_message s"
  by (drule readInt32_fields) (erule ssubst, simp)

lemma readInt32_failed:
  "fst (recv 4 s) \<noteq> 4 \<Longrightarrow> readInt32 d s = (-1, d, snd (snd (recv 4 s)))"
  by (cases "recv 4 s") (simp add: readInt32_def)

lemma receiveNextMessage_frame:
  "receiveNextMessage env s =
     receive_header env (s\<lparr>current_message := Some (frame_in_progress s)\<rparr>)"
proof (cases "current_message s")
  case None
  then show ?thesis by (simp add: frame_in_progress_def receiveNextMessage_def)
next
  case (Some m)
  have "s\<lparr>current_message := current_message s\<rparr> = s" by simp
  then have same: "s\<lparr>current_message := Some m\<rparr> = s" using Some by simp
  have "receiveNextMessage env s = receive_header env s"
    using Some by (simp add: receiveNextMessage_def)
  moreover have "frame_in_progress s = m" using Some by (simp add: frame_in_progress_def)
  ultimately show ?thesis by (simp only: same)
qed

lemma receive_header_at_header:
  "current_message s = Some m \<Longrightarrow> msg_state m = MessageStateHeader \<Longrightarrow>
   readInt32 0 s = (r, h, s1) \<Longrightarrow>
   receive_header env s =
     (if h = 0 then Inr s1
      else if SIG h \<noteq> ARCUS_SIGNATURE
      then Inr (error ReceiveFailedError ''Header mismatch'' s1)
      else receive_size env (s1\<lparr>current_message := Some (m\<lparr>msg_state := MessageStateSize\<rparr>)\<rparr>))"
  by (simp add: receive_header_def)

lemma recv_short_script:
  "incoming s = [] \<or> (\<exists>e rest. incoming s = RecvError e # rest)
     \<or> (\<exists>bs rest. incoming s = RecvData bs # rest \<and> length bs < 4)
   \<Longrightarrow> fst (recv 4 s) \<noteq> 4"
  by (auto simp: recv_def)

section \<open>The header stage\<close>

text \<open>
  Claim C9. At the header stage the result of \<^verbatim>\<open>readInt32\<close> is not looked at. Whenever
  the four-byte read does not return four bytes (a timeout, a would-block, a failure, a short
  read or an end of stream), \<^verbatim>\<open>readInt32\<close> returns -1 and leaves the header variable
  at 0, and the cycle ends through the keepalive branch: no error is recorded, nothing is
  notified, and the frame still awaits its header, exactly as after a keepalive.
\<close>
theorem failed_header_read_is_keepalive:
  assumes "stage s = MessageStateHeader" and "fst (recv 4 s) \<noteq> 4"
  shows "\<exists>s'. receiveNextMessage env s = Inr s'
           \<and> readInt32 0 s = (-1, 0, snd (snd (recv 4 s)))
           \<and> stage s' = MessageStateHeader
           \<and> current_message s' = Some (frame_in_progress s)
           \<and> last_error s' = last_error s \<and> trace s' = trace s
           \<and> state s' = state s \<and> next_state s' = next_state s
           \<and> receiveQueue s' = receiveQueue s"
proof -
  let ?s0 = "s\<lparr>current_message := Some (frame_in_progress s)\<rparr>"
  obtain num bs s1 where r: "recv 4 ?s0 = (num, bs, s1)" by (cases "recv 4 ?s0")
  have "fst (recv 4 ?s0) = fst (recv 4 s)"
    by (simp add: recv_def split: list.splits recv_outcome.splits)
  then have ne: "num \<noteq> 4" using assms(2) r by simp
  have ri: "readInt32 0 ?s0 = (-1, 0, s1)" using r ne by (simp add: readInt32_def)
  have s1: "s1 = ?s0\<lparr>errno := errno s1, incoming := incoming s1\<rparr>"
    using r by (rule recv_fields)
  have st: "msg_state (frame_in_progress s) = MessageStateHeader"
    using assms(1) by (simp add: stage_def)
  have "receive_header env ?s0 = Inr s1"
    using receive_header_at_header [of ?s0 "frame_in_progress s" "-1" 0 s1 env] st ri by simp
  then have res: "receiveNextMessage env s = Inr s1" by (simp add: receiveNextMessage_frame)
  have cm: "current_message s1 = Some (frame_in_progress s)" by (subst s1) simp
  have "stage s1 = MessageStateHeader" using cm st by (simp add: stage_def frame_in_progress_def)
  moreover have "last_error s1 = last_error s" by (subst s1) simp
  moreover have "trace s1 = trace s" by (subst s1) simp
  moreover have "state s1 = state s" by (subst s1) simp
  moreover have "next_state s1 = next_state s" by (subst s1) simp
  moreover have "receiveQueue s1 = receiveQueue s" by (subst s1) simp
  moreover have "readInt32 0 s = (-1, 0, snd (snd (recv 4 s)))"
    using assms(2) by (rule readInt32_failed)
  ultimately show ?thesis using res cm by simp
qed

theorem failed_header_read_is_keepalive_witness:
  "stage (example_socket Connected [RecvError 104]) = MessageStateHeader
   \<and> fst (recv 4 (example_socket Connected [RecvError 104])) \<noteq> 4
   \<and> (\<exists>s'. receiveNextMessage example_env (example_socket Connected [RecvError 104]) = Inr s'
          \<and> readInt32 0 (example_socket Connected [RecvError 104])
              = (-1, 0, snd (snd (recv 4 (example_socket Connected [RecvError 104]))))
          \<and> stage s' = MessageStateHeader
          \<and> current_message s'
              = Some (frame_in_progress (example_socket Connected [RecvError 104]))
          \<and> last_error s' = last_error (example_socket Connected [RecvError 104])
          \<and> trace s' = trace (example_socket Connected [RecvError 104])
          \<and> state s' = state (example_socket Connected [RecvError 104])
          \<and> next_state s' = next_state (example_socket Connected [RecvError 104])
          \<and> receiveQueue s' = receiveQueue (example_socket Connected [RecvError 104]))"
proof -
  have h1: "stage (example_socket Connected [RecvError 104]) = MessageStateHeader"
    by (simp add: stage_def frame_in_progress_def example_socket_def new_WireMessage_def)
  have h2: "fst (recv 4 (example_socket Connected [RecvError 104])) \<noteq> 4"
    by (simp add: recv_def example_socket_def)
  show ?thesis
    using h1 h2 failed_header_read_is_keepalive [OF h1 h2, of example_env] by simp
qed

declare ntohl.simps [simp del]

lemma readInt32_four:
  "incoming s = RecvData [a, b, c, d] # rest \<Longrightarrow>
   readInt32 v s = (0, ntohl [a, b, c, d], s\<lparr>incoming := rest\<rparr>)"
  by (simp add: readInt32_def recv_def)

lemma header_read:
  assumes "stage s = MessageStateHeader" and "incoming s = RecvData [a, b, c, d] # rest"
  shows "receiveNextMessage env s =
     (if ntohl [a, b, c, d] = 0
      then Inr (s\<lparr>current_message := Some (frame_in_progress s), incoming := rest\<rparr>)
      else if SIG (ntohl [a, b, c, d]) \<noteq> ARCUS_SIGNATURE
      then Inr (error ReceiveFailedError ''Header mismatch''
                  (s\<lparr>current_message := Some (frame_in_progress s), incoming := rest\<rparr>))
      else receive_size env
             (s\<lparr>incoming := rest,
                current_message :=
                  Some ((frame_in_progress s)\<lparr>msg_state := MessageStateSize\<rparr>)\<rparr>))"
proof -
  let ?s0 = "s\<lparr>current_message := Some (frame_in_progress s)\<rparr>"
  have inc: "incoming ?s0 = RecvData [a, b, c, d] # rest" using assms(2) by simp
  have st: "msg_state (frame_in_progress s) = MessageStateHeader"
    using assms(1) by (simp add: stage_def)
  have cm: "current_message ?s0 = Some (frame_in_progress s)" by simp
  show ?thesis
    unfolding receiveNextMessage_frame [of env s]
      receive_header_at_header [OF cm st readInt32_four [OF inc]]
    by simp
qed

text \<open>
  Claim C5. A receive cycle that starts at the header stage and reads four zero bytes
  consumes exactly those four bytes and returns: \<^verbatim>\<open>handleMessage\<close> is not entered,
  nothing is appended to the trace or to the receive queue, no error is recorded, and the
  frame still awaits its header. What follows on the stream plays no part.
\<close>
theorem keepalive_header_consumed:
  assumes "stage s = MessageStateHeader" and "incoming s = RecvData [0, 0, 0, 0] # rest"
  shows "\<exists>s'. receiveNextMessage env s = Inr s'
           \<and> incoming s' = rest
           \<and> handled (drop (length (trace s)) (trace s')) = []
           \<and> trace s' = trace s \<and> receiveQueue s' = receiveQueue s
           \<and> last_error s' = last_error s
           \<and> stage s' = MessageStateHeader
           \<and> state s' = state s \<and> next_state s' = next_state s"
proof -
  have z: "ntohl [0, 0, 0, 0] = 0" by (simp add: ntohl.simps)
  have st: "msg_state (frame_in_progress s) = MessageStateHeader"
    using assms(1) by (simp add: stage_def)
  show ?thesis
    unfolding header_read [OF assms, of env] z
    using st by (simp add: stage_def frame_in_progress_def)
qed

theorem keepalive_header_consumed_witness:
  "stage (example_socket Connected [RecvData [0, 0, 0, 0], RecvData [1]]) = MessageStateHeader
   \<and> incoming (example_socket Connected [RecvData [0, 0, 0, 0], RecvData [1]])
       = RecvData [0, 0, 0, 0] # [RecvData [1]]
   \<and> (\<exists>s'. receiveNextMessage example_env
              (example_socket Connected [RecvData [0, 0, 0, 0], RecvData [1]]) = Inr s'
          \<and> incoming s' = [RecvData [1]]
          \<and> trace s' = [] \<and> receiveQueue s' = []
          \<and> stage s' = MessageStateHeader)"
proof -
  let ?s = "example_socket Connected [RecvData [0, 0, 0, 0], RecvData [1]]"
  have h1: "stage ?s = MessageStateHeader"
    by (simp add: stage_def frame_in_progress_def example_socket_def new_WireMessage_def)
  have h2: "incoming ?s = RecvData [0, 0, 0, 0] # [RecvData [1]]"
    by (simp add: example_socket_def)
  have e: "trace ?s = []" "receiveQueue ?s = []" by (simp_all add: example_socket_def)
  show ?thesis
    using h1 h2 keepalive_header_consumed [OF h1 h2, of example_env] e by auto
qed

text \<open>
  Claim C6, as the code has it. A header of four bytes that is not zero and whose upper 16
  bits are not \<^verbatim>\<open>0x2BAD\<close> makes the cycle record the non-fatal
  \<^verbatim>\<open>ReceiveFailedError\<close> "Header mismatch" and notify it once to each listener, in
  registration order; the frame still awaits its header and neither the state nor the pending
  state changes.
\<close>
theorem header_mismatch_reported:
  assumes "stage s = MessageStateHeader" and "incoming s = RecvData [a, b, c, d] # rest"
    and "ntohl [a, b, c, d] \<noteq> 0" and "SIG (ntohl [a, b, c, d]) \<noteq> ARCUS_SIGNATURE"
  shows "\<exists>s'. receiveNextMessage env s = Inr s'
           \<and> trace s' = trace s @
               map (\<lambda>l. ErrorNotify l \<lparr>error_code = ReceiveFailedError,
                      error_message = ''Header mismatch'', fatal_error = False\<rparr>) (listeners s)
           \<and> last_error s' = \<lparr>error_code = ReceiveFailedError,
                      error_message = ''Header mismatch'', fatal_error = False\<rparr>
           \<and> stage s' = MessageStateHeader
           \<and> state s' = state s \<and> next_state s' = next_state s
           \<and> receiveQueue s' = receiveQueue s \<and> incoming s' = rest"
proof -
  have st: "msg_state (frame_in_progress s) = MessageStateHeader"
    using assms(1) by (simp add: stage_def)
  show ?thesis
    unfolding header_read [OF assms(1,2), of env]
    using st assms(3,4)
    by (simp add: stage_def frame_in_progress_def error_def mkError_def Let_def)
qed

theorem header_mismatch_reported_witness:
  "stage (example_socket Connected [RecvData [1, 2, 3, 4]]) = MessageStateHeader
   \<and> incoming (example_socket Connected [RecvData [1, 2, 3, 4]]) = RecvData [1, 2, 3, 4] # []
   \<and> ntohl [1, 2, 3, 4] \<noteq> 0 \<and> SIG (ntohl [1, 2, 3, 4]) \<noteq> ARCUS_SIGNATURE
   \<and> (\<exists>s'. receiveNextMessage example_env (example_socket Connected [RecvData [1, 2, 3, 4]])
            = Inr s'
          \<and> trace s' =
               [ErrorNotify 0 \<lparr>error_code = ReceiveFailedError,
                      error_message = ''Header mismatch'', fatal_error = False\<rparr>,
                ErrorNotify 1 \<lparr>error_code = ReceiveFailedError,
                      error_message = ''Header mismatch'', fatal_error = False\<rparr>]
          \<and> stage s' = MessageStateHeader \<and> state s' = Connected \<and> next_state s' = Connected)"
proof -
  let ?s = "example_socket Connected [RecvData [1, 2, 3, 4]]"
  have h1: "stage ?s = MessageStateHeader"
    by (simp add: stage_def frame_in_progress_def example_socket_def new_WireMessage_def)
  have h2: "incoming ?s = RecvData [1, 2, 3, 4] # []"
    by (simp add: example_socket_def)
  have h3: "ntohl [1, 2, 3, 4] \<noteq> 0" by (simp add: ntohl.simps)
  have h4: "SIG (ntohl [1, 2, 3, 4]) \<noteq> ARCUS_SIGNATURE"
    by (simp add: SIG_def ARCUS_SIGNATURE_def ntohl.simps)
  have e: "trace ?s = []" "listeners ?s = [0, 1]" "state ?s = Connected"
    "next_state ?s = Connected" by (simp_all add: example_socket_def)
  show ?thesis
    using h1 h2 h3 h4 header_mismatch_reported [OF h1 h2 h3 h4, of example_env] e by auto
qed

text \<open>
  Claim C6 as stated fails at the all-zero header: its signature is 0, which differs from
  \<^verbatim>\<open>0x2BAD\<close>, yet the cycle returns through the keepalive test that precedes the
  signature test and notifies nobody.
\<close>
theorem zero_header_mismatch_unreported:
  "stage (example_socket Connected [RecvData [0, 0, 0, 0]]) = MessageStateHeader
   \<and> listeners (example_socket Connected [RecvData [0, 0, 0, 0]]) = [0, 1]
   \<and> SIG (ntohl [0, 0, 0, 0]) \<noteq> ARCUS_SIGNATURE
   \<and> receiveNextMessage example_env (example_socket Connected [RecvData [0, 0, 0, 0]])
       = Inr ((example_socket Connected [])\<lparr>current_message := Some new_WireMessage\<rparr>)
   \<and> trace ((example_socket Connected [])\<lparr>current_message := Some new_WireMessage\<rparr>) = []"
  by (simp add: header_read stage_def frame_in_progress_def example_socket_def new_WireMessage_def
        SIG_def ARCUS_SIGNATURE_def ntohl.simps)

section \<open>The Listening case\<close>

lemma run_switch_accept_failed:
  assumes "state s = Listening" and "accept_result env = -1"
  shows "\<exists>p. run_switch env s = Inr p
           \<and> last_error p = \<lparr>error_code = AcceptFailedError,
                 error_message = ''Could not accept the incoming connection'',
                 fatal_error = True\<rparr>
           \<and> trace p = trace s @
                 map (\<lambda>l. ErrorNotify l \<lparr>error_code = AcceptFailedError,
                        error_message = ''Could not accept the incoming connection'',
                        fatal_error = True\<rparr>) (listeners s)
                 @ [SockClose (socketId s), SetReceiveTimeout (-1) 250]
           \<and> next_state p = Connected \<and> state p = Listening
           \<and> listeners p = listeners s \<and> current_message p = None \<and> socketId p = -1"
  using assms
  by (simp add: run_switch_def fatalError_def setFatalError_def mkError_def
        setSocketReceiveTimeout_def returned_def Let_def)

text \<open>
  Claim C2. In the \<^verbatim>\<open>Listening\<close> state, when \<^verbatim>\<open>accept\<close> returns -1 the fatal
  \<^verbatim>\<open>AcceptFailedError\<close> is recorded and notified to every listener, and the assignment
  that follows \<^verbatim>\<open>fatalError\<close> overwrites the pending state with \<^verbatim>\<open>Connected\<close>.
  The iteration therefore commits \<^verbatim>\<open>Connected\<close>, announces it, and the loop condition
  still holds: the loop goes on with the next iteration.
\<close>
theorem accept_failure_forces_connected:
  assumes "state s = Listening" and "accept_result env = -1"
  shows "\<exists>p s'. run_switch env s = Inr p \<and> run_iteration env s = Inr s'
           \<and> last_error p = \<lparr>error_code = AcceptFailedError,
                 error_message = ''Could not accept the incoming connection'',
                 fatal_error = True\<rparr>
           \<and> trace p = trace s @
                 map (\<lambda>l. ErrorNotify l \<lparr>error_code = AcceptFailedError,
                        error_message = ''Could not accept the incoming connection'',
                        fatal_error = True\<rparr>) (listeners s)
                 @ [SockClose (socketId s), SetReceiveTimeout (-1) 250]
           \<and> next_state p = Connected
           \<and> state s' = Connected \<and> next_state s' = Connected
           \<and> last_error s' = last_error p
           \<and> trace s' = trace p @ map (\<lambda>l. StateChangedNotify l Connected) (listeners s)
           \<and> running s'
           \<and> (\<forall>envs. run (env # envs) s = run envs s')"
proof -
  obtain p where p: "run_switch env s = Inr p"
    "last_error p = \<lparr>error_code = AcceptFailedError,
        error_message = ''Could not accept the incoming connection'', fatal_error = True\<rparr>"
    "trace p = trace s @
        map (\<lambda>l. ErrorNotify l \<lparr>error_code = AcceptFailedError,
               error_message = ''Could not accept the incoming connection'',
               fatal_error = True\<rparr>) (listeners s)
        @ [SockClose (socketId s), SetReceiveTimeout (-1) 250]"
    "next_state p = Connected" "state p = Listening" "listeners p = listeners s"
    using run_switch_accept_failed [OF assms] by blast
  have it: "run_iteration env s = Inr (run_commit p)" using p(1) by (simp add: run_iteration_def)
  have c: "state (run_commit p) = Connected" "next_state (run_commit p) = Connected"
    "last_error (run_commit p) = last_error p"
    "trace (run_commit p) = trace p @ map (\<lambda>l. StateChangedNotify l Connected) (listeners s)"
    using p(4,5,6) by (simp_all add: run_commit_def)
  have r: "running (run_commit p)" using c(1) by (simp add: running_def)
  have "running s" using assms(1) by (simp add: running_def)
  then have "\<forall>envs. run (env # envs) s = run envs (run_commit p)" using it by simp
  with p(1,2,3,4) it c r show ?thesis by blast
qed

theorem accept_failure_forces_connected_witness:
  "state (example_socket Listening []) = Listening
   \<and> accept_result (example_env\<lparr>accept_result := -1\<rparr>) = -1
   \<and> (\<exists>p s'. run_switch (example_env\<lparr>accept_result := -1\<rparr>) (example_socket Listening []) = Inr p
          \<and> run_iteration (example_env\<lparr>accept_result := -1\<rparr>) (example_socket Listening [])
              = Inr s'
          \<and> fatal_error (last_error p) \<and> error_code (last_error p) = AcceptFailedError
          \<and> next_state p = Connected \<and> state s' = Connected \<and> running s'
          \<and> run [example_env\<lparr>accept_result := -1\<rparr>, example_env] (example_socket Listening [])
              = run [example_env] s')"
proof -
  let ?e = "example_env\<lparr>accept_result := -1\<rparr>"
  let ?s = "example_socket Listening []"
  have h1: "state ?s = Listening" by (simp add: example_socket_def)
  have h2: "accept_result ?e = -1" by simp
  obtain p s' where r: "run_switch ?e ?s = Inr p" "run_iteration ?e ?s = Inr s'"
    "last_error p = \<lparr>error_code = AcceptFailedError,
        error_message = ''Could not accept the incoming connection'', fatal_error = True\<rparr>"
    "next_state p = Connected" "state s' = Connected" "running s'"
    "\<forall>envs. run (?e # envs) ?s = run envs s'"
    using accept_failure_forces_connected [OF h1 h2] by blast
  from r(7) have "run [?e, example_env] ?s = run [example_env] s'" by blast
  with r h1 h2 show ?thesis by simp
qed

text \<open>
  Claim C1 at an accept failure: the fatal error is recorded and notified, but the iteration
  ends in \<^verbatim>\<open>Connected\<close> with the loop condition true, and the loop has not returned
  when its one iteration is over.
\<close>
theorem accept_failure_not_terminal:
  "state (example_socket Listening []) = Listening
   \<and> run_iteration (example_env\<lparr>accept_result := -1\<rparr>) (example_socket Listening [])
       = Inr ((example_socket Connected [])
               \<lparr>last_error := \<lparr>error_code = AcceptFailedError,
                    error_message = ''Could not accept the incoming connection'',
                    fatal_error = True\<rparr>,
                 trace := [ErrorNotify 0 \<lparr>error_code = AcceptFailedError,
                             error_message = ''Could not accept the incoming connection'',
                             fatal_error = True\<rparr>,
                           ErrorNotify 1 \<lparr>error_code = AcceptFailedError,
                             error_message = ''Could not accept the incoming connection'',
                             fatal_error = True\<rparr>,
                           SockClose 3, SetReceiveTimeout (-1) 250,
                           StateChangedNotify 0 Connected, StateChangedNotify 1 Connected],
                 socketId := -1, errno := 103\<rparr>)
   \<and> running ((example_socket Connected [])\<lparr>socketId := -1, errno := 103\<rparr>)
   \<and> run [example_env\<lparr>accept_result := -1\<rparr>] (example_socket Listening []) = None"
  by (simp add: run_iteration_def run_switch_def run_commit_def fatalError_def setFatalError_def
        mkError_def setSocketReceiveTimeout_def returned_def example_socket_def example_env_def
        running_def Let_def)

section \<open>What a receive cycle leaves untouched\<close>

lemma lock_discipline_append:
  "lock_discipline held a \<Longrightarrow> lock_discipline [] b \<Longrightarrow> lock_discipline held (a @ b)"
  by (induction held a rule: lock_discipline.induct) simp_all

lemma lock_discipline_ErrorNotify: "lock_discipline [] (map (\<lambda>l. ErrorNotify l e) ls)"
  by (induction ls) simp_all

lemma lock_discipline_MessageReceivedNotify:
  "lock_discipline [] (map MessageReceivedNotify ls)"
  by (induction ls) simp_all

lemma lock_discipline_StateChangedNotify:
  "lock_discipline [] (map (\<lambda>l. StateChangedNotify l x) ls)"
  by (induction ls) simp_all

lemma calm_refl: "calm s s"
  by (simp add: calm_def)

lemma calm_trans:
  assumes "calm s s1" and "calm s1 s2"
  shows "calm s s2"
proof -
  obtain ev1 where e1: "trace s1 = trace s @ ev1" "list_all quiet ev1" "list_all advisory ev1"
    "lock_discipline [] ev1"
    using assms(1) unfolding calm_def by blast
  obtain ev2 where e2: "trace s2 = trace s1 @ ev2" "list_all quiet ev2" "list_all advisory ev2"
    "lock_discipline [] ev2"
    using assms(2) unfolding calm_def by blast
  have tr: "trace s2 = trace s @ (ev1 @ ev2) \<and> list_all quiet (ev1 @ ev2)
              \<and> list_all advisory (ev1 @ ev2) \<and> lock_discipline [] (ev1 @ ev2)"
    using e1 e2 by (simp add: lock_discipline_append)
  have le: "last_error s2 = last_error s \<or> \<not> fatal_error (last_error s2)"
    using assms unfolding calm_def by auto
  have "state s2 = state s \<and> next_state s2 = next_state s \<and> listeners s2 = listeners s
      \<and> message_types s2 = message_types s \<and> sendQueue s2 = sendQueue s
      \<and> socketId s2 = socketId s \<and> lastKeepAliveSent s2 = lastKeepAliveSent s
      \<and> outgoing s2 = outgoing s"
    using assms unfolding calm_def by simp
  with tr le show ?thesis unfolding calm_def by blast
qed

lemma calm_readInt32: "readInt32 d s = (r, v, s1) \<Longrightarrow> calm s s1"
  by (drule readInt32_fields) (erule ssubst, simp add: calm_def)

lemma calm_readBytes: "readBytes n s = (r, v, s1) \<Longrightarrow> calm s s1"
  by (drule readBytes_fields) (erule ssubst, simp add: calm_def)

lemma calm_current_message: "calm s (s\<lparr>current_message := c\<rparr>)"
  by (simp add: calm_def)

lemma calm_error: "calm s (error c m s)"
  by (simp add: calm_def error_def mkError_def Let_def list_all_iff quiet_def
        lock_discipline_ErrorNotify)

lemma calm_handleMessage: "calm s (handleMessage m s)"
  by (auto simp: calm_def handleMessage_def error_def mkError_def Let_def list_all_iff quiet_def
        lock_discipline_ErrorNotify lock_discipline_MessageReceivedNotify
      split: option.splits)

lemma cycle_result_calm: "calm s s' \<Longrightarrow> cycle_result env s s'"
  by (simp add: cycle_result_def)

lemma cycle_result_after:
  assumes "calm s s1" and "cycle_result env s1 s'"
  shows "cycle_result env s s'"
proof (cases "calm s1 s'")
  case True
  with assms(1) have "calm s s'" by (rule calm_trans)
  then show ?thesis by (simp add: cycle_result_def)
next
  case False
  then obtain s2 where f: "alloc_fails env" "calm s1 s2"
    "s' = fatalError ReceiveFailedError ''Out of memory'' s2"
    using assms(2) unfolding cycle_result_def by blast
  from assms(1) f(2) have "calm s s2" by (rule calm_trans)
  with f(1,3) show ?thesis unfolding cycle_result_def by blast
qed


lemma calm_receive_dispatch:
  assumes "receive_dispatch s = Inr s'"
  shows "calm s s'"
proof (cases "current_message s")
  case None
  then show ?thesis using assms by (simp add: receive_dispatch_def)
next
  case (Some m)
  show ?thesis
  proof (cases "msg_state m = MessageStateDispatch")
    case True
    then have "s' = (handleMessage m s)\<lparr>current_message := None\<rparr>"
      using assms Some by (simp add: receive_dispatch_def)
    then show ?thesis
      using calm_trans [OF calm_handleMessage calm_current_message] by simp
  next
    case False
    then have "s' = s" using assms Some by (simp add: receive_dispatch_def)
    then show ?thesis by (simp add: calm_refl)
  qed
qed

lemma calm_set_then_dispatch:
  "receive_dispatch (s\<lparr>current_message := c\<rparr>) = Inr s' \<Longrightarrow> calm s s'"
  by (rule calm_trans [OF calm_current_message calm_receive_dispatch])

lemma calm_receive_data:
  assumes "receive_data s = Inr s'"
  shows "calm s s'"
proof (cases "current_message s")
  case None
  then show ?thesis using assms by (simp add: receive_data_def)
next
  case (Some m)
  show ?thesis
  proof (cases "msg_state m = MessageStateData")
    case False
    then show ?thesis using assms Some by (simp add: receive_data_def calm_receive_dispatch)
  next
    case True
    obtain r bs s1 where rb: "readBytes (getRemainingSize m) s = (r, bs, s1)"
      by (cases "readBytes (getRemainingSize m) s")
    have c1: "calm s s1" using rb by (rule calm_readBytes)
    have "calm s1 s'"
      using assms Some True rb
      by (simp add: receive_data_def Let_def split: if_splits)
         (auto simp add: calm_current_message calm_receive_dispatch calm_set_then_dispatch)
    with c1 show ?thesis by (rule calm_trans)
  qed
qed


lemma cycle_result_receive_type:
  assumes "receive_type env s = Inr s'"
  shows "cycle_result env s s'"
proof (cases "current_message s")
  case None
  then show ?thesis using assms by (simp add: receive_type_def)
next
  case (Some m)
  show ?thesis
  proof (cases "msg_state m = MessageStateType")
    case False
    then show ?thesis
      using assms Some by (simp add: receive_type_def calm_receive_data cycle_result_calm)
  next
    case True
    obtain r v s1 where ri: "readInt32 0 s = (r, v, s1)" by (cases "readInt32 0 s")
    have c1: "calm s s1" using ri by (rule calm_readInt32)
    have "cycle_result env s1 s'"
    proof (cases "r \<noteq> 0 \<and> errno s1 = EAGAIN")
      case True
      then have "s' = s1" using assms Some \<open>msg_state m = MessageStateType\<close> ri
        by (simp add: receive_type_def)
      then show ?thesis by (simp add: cycle_result_calm calm_refl)
    next
      case retry: False
      let ?m1 = "if r \<noteq> 0 then m\<lparr>msg_valid := False\<rparr> else m"
      show ?thesis
      proof (cases "alloc_fails env")
        case True
        then have "s' = fatalError ReceiveFailedError ''Out of memory''
                          (s1\<lparr>current_message := Some ?m1\<rparr>)"
          using assms Some \<open>msg_state m = MessageStateType\<close> ri retry
          by (simp add: receive_type_def Let_def split: if_splits)
        then show ?thesis
          unfolding cycle_result_def using True calm_current_message by blast
      next
        case False
        then have "receive_data (s1\<lparr>current_message :=
                      Some ((allocateData ?m1)\<lparr>msg_type := v,
                              msg_state := MessageStateData\<rparr>)\<rparr>) = Inr s'"
          using assms Some \<open>msg_state m = MessageStateType\<close> ri retry
          by (simp add: receive_type_def Let_def split: if_splits)
        then have "calm s1 s'"
          by (rule calm_trans [OF calm_current_message calm_receive_data])
        then show ?thesis by (rule cycle_result_calm)
      qed
    qed
    with c1 show ?thesis by (rule cycle_result_after)
  qed
qed

lemma cycle_result_receive_size:
  assumes "receive_size env s = Inr s'"
  shows "cycle_result env s s'"
proof (cases "current_message s")
  case None
  then show ?thesis using assms by (simp add: receive_size_def)
next
  case (Some m)
  show ?thesis
  proof (cases "msg_state m = MessageStateSize")
    case False
    then show ?thesis
      using assms Some by (simp add: receive_size_def cycle_result_receive_type)
  next
    case True
    obtain r v s1 where ri: "readInt32 0 s = (r, v, s1)" by (cases "readInt32 0 s")
    have c1: "calm s s1" using ri by (rule calm_readInt32)
    have "cycle_result env s1 s'"
    proof (cases "r \<noteq> 0 \<or> sint v < 0")
      case True
      then have "s' = s1 \<or> s' = error ReceiveFailedError ''Size invalid'' s1"
        using assms Some \<open>msg_state m = MessageStateSize\<close> ri
        by (auto simp: receive_size_def split: if_splits)
      then show ?thesis using calm_refl calm_error by (auto intro: cycle_result_calm)
    next
      case False
      then have "receive_type env (s1\<lparr>current_message :=
                     Some (m\<lparr>msg_size := nat (sint v),
                            msg_state := MessageStateType\<rparr>)\<rparr>) = Inr s'"
        using assms Some \<open>msg_state m = MessageStateSize\<close> ri
        by (simp add: receive_size_def)
      then show ?thesis
        by (rule cycle_result_after [OF calm_current_message cycle_result_receive_type])
    qed
    with c1 show ?thesis by (rule cycle_result_after)
  qed
qed

lemma cycle_result_receive_header:
  assumes "receive_header env s = Inr s'"
  shows "cycle_result env s s'"
proof (cases "current_message s")
  case None
  then show ?thesis using assms by (simp add: receive_header_def)
next
  case (Some m)
  show ?thesis
  proof (cases "msg_state m = MessageStateHeader")
    case False
    then show ?thesis
      using assms Some by (simp add: receive_header_def cycle_result_receive_size)
  next
    case True
    obtain r v s1 where ri: "readInt32 0 s = (r, v, s1)" by (cases "readInt32 0 s")
    have c1: "calm s s1" using ri by (rule calm_readInt32)
    have "cycle_result env s1 s'"
    proof (cases "v = 0 \<or> SIG v \<noteq> ARCUS_SIGNATURE")
      case True
      then have "s' = s1 \<or> s' = error ReceiveFailedError ''Header mismatch'' s1"
        using assms Some \<open>msg_state m = MessageStateHeader\<close> ri
        by (auto simp: receive_header_def split: if_splits)
      then show ?thesis using calm_refl calm_error by (auto intro: cycle_result_calm)
    next
      case False
      then have "receive_size env (s1\<lparr>current_message :=
                     Some (m\<lparr>msg_state := MessageStateSize\<rparr>)\<rparr>) = Inr s'"
        using assms Some \<open>msg_state m = MessageStateHeader\<close> ri
        by (simp add: receive_header_def)
      then show ?thesis
        by (rule cycle_result_after [OF calm_current_message cycle_result_receive_size])
    qed
    with c1 show ?thesis by (rule cycle_result_after)
  qed
qed

lemma cycle_result_receiveNextMessage:
  assumes "receiveNextMessage env s = Inr s'"
  shows "cycle_result env s s'"
proof -
  have "receive_header env (s\<lparr>current_message := Some (frame_in_progress s)\<rparr>) = Inr s'"
    using assms by (simp add: receiveNextMessage_frame)
  then show ?thesis
    by (rule cycle_result_after [OF calm_current_message cycle_result_receive_header])
qed

section \<open>The Connected case\<close>

lemma drain_all: "drain q acc tr = ([], acc @ q, tr @ drain_accesses q)"
  by (induction q arbitrary: acc tr) simp_all

lemma drainSendQueue_all:
  "drainSendQueue s =
     (sendQueue s,
      s\<lparr>trace := trace s @ [MutexLock sendQueueMutex] @ drain_accesses (sendQueue s)
                  @ [MutexUnlock sendQueueMutex],
        sendQueue := []\<rparr>)"
  by (simp add: drainSendQueue_def drain_all Let_def)

lemma header_word_bytes:
  "htonl (push_bit 16 ARCUS_SIGNATURE OR push_bit 8 VERSION_MAJOR OR VERSION_MINOR)
     = [0x2B, 0xAD, 0x01, 0x00]"
  by (simp add: htonl_def ARCUS_SIGNATURE_def VERSION_MAJOR_def VERSION_MINOR_def)

lemma send_frame:
  "state (snd (send b s)) = state s
   \<and> next_state (snd (send b s)) = next_state s
   \<and> listeners (snd (send b s)) = listeners s
   \<and> message_types (snd (send b s)) = message_types s
   \<and> current_message (snd (send b s)) = current_message s
   \<and> sendQueue (snd (send b s)) = sendQueue s
   \<and> receiveQueue (snd (send b s)) = receiveQueue s
   \<and> socketId (snd (send b s)) = socketId s
   \<and> last_error (snd (send b s)) = last_error s
   \<and> lastKeepAliveSent (snd (send b s)) = lastKeepAliveSent s
   \<and> incoming (snd (send b s)) = incoming s
   \<and> trace (snd (send b s)) = trace s @ [SockSend (socketId s) b]"
  by (simp add: send_def Let_def split: list.splits send_outcome.splits)

lemma sendMessage_frame:
  "state (sendMessage s m) = state s
   \<and> next_state (sendMessage s m) = next_state s
   \<and> listeners (sendMessage s m) = listeners s
   \<and> message_types (sendMessage s m) = message_types s
   \<and> current_message (sendMessage s m) = current_message s
   \<and> sendQueue (sendMessage s m) = sendQueue s
   \<and> receiveQueue (sendMessage s m) = receiveQueue s
   \<and> socketId (sendMessage s m) = socketId s
   \<and> last_error (sendMessage s m) = last_error s
   \<and> lastKeepAliveSent (sendMessage s m) = lastKeepAliveSent s
   \<and> incoming (sendMessage s m) = incoming s
   \<and> trace (sendMessage s m) = trace s @ spec_frame_sends (socketId s) m"
  by (simp add: sendMessage_def Let_def send_frame spec_frame_sends_def header_word_bytes)

lemma foldl_sendMessage_frame:
  "state (foldl sendMessage s ms) = state s
   \<and> next_state (foldl sendMessage s ms) = next_state s
   \<and> listeners (foldl sendMessage s ms) = listeners s
   \<and> message_types (foldl sendMessage s ms) = message_types s
   \<and> current_message (foldl sendMessage s ms) = current_message s
   \<and> sendQueue (foldl sendMessage s ms) = sendQueue s
   \<and> receiveQueue (foldl sendMessage s ms) = receiveQueue s
   \<and> socketId (foldl sendMessage s ms) = socketId s
   \<and> last_error (foldl sendMessage s ms) = last_error s
   \<and> lastKeepAliveSent (foldl sendMessage s ms) = lastKeepAliveSent s
   \<and> incoming (foldl sendMessage s ms) = incoming s
   \<and> trace (foldl sendMessage s ms)
       = trace s @ concat (map (spec_frame_sends (socketId s)) ms)"
  by (induction ms arbitrary: s) (simp_all add: sendMessage_frame)

lemma sendQueued_frame:
  "state (sendQueued s) = state s
   \<and> next_state (sendQueued s) = next_state s
   \<and> listeners (sendQueued s) = listeners s
   \<and> message_types (sendQueued s) = message_types s
   \<and> current_message (sendQueued s) = current_message s
   \<and> receiveQueue (sendQueued s) = receiveQueue s
   \<and> socketId (sendQueued s) = socketId s
   \<and> last_error (sendQueued s) = last_error s
   \<and> lastKeepAliveSent (sendQueued s) = lastKeepAliveSent s
   \<and> incoming (sendQueued s) = incoming s
   \<and> sendQueue (sendQueued s) = []
   \<and> trace (sendQueued s)
       = trace s @ [MutexLock sendQueueMutex] @ drain_accesses (sendQueue s)
           @ [MutexUnlock sendQueueMutex]
           @ concat (map (spec_frame_sends (socketId s)) (sendQueue s))"
  by (simp add: sendQueued_def drainSendQueue_all foldl_sendMessage_frame)

lemma cycle_result_fields:
  assumes "cycle_result env s s'"
  shows "state s' = state s \<and> listeners s' = listeners s \<and> sendQueue s' = sendQueue s
         \<and> socketId s' = socketId s \<and> lastKeepAliveSent s' = lastKeepAliveSent s
         \<and> message_types s' = message_types s \<and> outgoing s' = outgoing s
         \<and> (\<exists>ev. trace s' = trace s @ ev \<and> list_all quiet ev \<and> lock_discipline [] ev)"
proof (cases "calm s s'")
  case True
  then show ?thesis unfolding calm_def by blast
next
  case False
  then obtain s1 where f: "calm s s1" "s' = fatalError ReceiveFailedError ''Out of memory'' s1"
    using assms unfolding cycle_result_def by blast
  obtain ev where ev: "trace s1 = trace s @ ev" "list_all quiet ev" "lock_discipline [] ev"
    using f(1) unfolding calm_def by blast
  let ?e = "setFatalError True (mkError ReceiveFailedError ''Out of memory'')"
  have "trace s' = trace s @ (ev @ map (\<lambda>l. ErrorNotify l ?e) (listeners s1))"
    using f(2) ev(1) by (simp add: fatalError_def Let_def)
  moreover have "list_all quiet (ev @ map (\<lambda>l. ErrorNotify l ?e) (listeners s1))"
    using ev(2) by (auto simp: list_all_iff quiet_def)
  moreover have "lock_discipline [] (ev @ map (\<lambda>l. ErrorNotify l ?e) (listeners s1))"
    using ev(3) by (simp add: lock_discipline_append lock_discipline_ErrorNotify)
  ultimately have "\<exists>ev. trace s' = trace s @ ev \<and> list_all quiet ev \<and> lock_discipline [] ev"
    by blast
  moreover have "state s' = state s \<and> listeners s' = listeners s \<and> sendQueue s' = sendQueue s
         \<and> socketId s' = socketId s \<and> lastKeepAliveSent s' = lastKeepAliveSent s
         \<and> message_types s' = message_types s \<and> outgoing s' = outgoing s"
    using f unfolding calm_def by (simp add: fatalError_def Let_def)
  ultimately show ?thesis by blast
qed

lemma cycle_result_pending:
  assumes "cycle_result env s s'"
  shows "next_state s' = next_state s
         \<or> (alloc_fails env \<and> next_state s' = Error \<and> fatal_error (last_error s')
             \<and> current_message s' = None)"
proof (cases "calm s s'")
  case True
  then show ?thesis unfolding calm_def by blast
next
  case False
  then obtain s1 where f: "alloc_fails env" "s' = fatalError ReceiveFailedError ''Out of memory'' s1"
    using assms unfolding cycle_result_def by blast
  then show ?thesis by (simp add: fatalError_def setFatalError_def Let_def)
qed

lemma quiet_filters:
  "list_all quiet ev \<Longrightarrow>
   filter is_state_changed ev = [] \<and> filter is_send ev = []
   \<and> filter (touches sendQueueMutex) ev = []"
  by (induction ev) (simp_all add: quiet_def)

lemma quiet_ErrorNotify: "list_all quiet (map (\<lambda>l. ErrorNotify l e) ls)"
  by (induction ls) (simp_all add: quiet_def)

lemma checkConnectionState_fields:
  "state (checkConnectionState env s) = state s
   \<and> listeners (checkConnectionState env s) = listeners s
   \<and> sendQueue (checkConnectionState env s) = sendQueue s
   \<and> socketId (checkConnectionState env s) = socketId s
   \<and> current_message (checkConnectionState env s) = current_message s"
  by (simp add: checkConnectionState_def error_def Let_def case_prod_beta send_frame)

lemma checkConnectionState_trace:
  "trace (checkConnectionState env s) =
     trace s @
       (if duration_cast_ms (ticks_per_ms env) (clock_now env - lastKeepAliveSent s)
             > keepAliveRate
        then SockSend (socketId s) keepalive_frame #
             (if fst (send keepalive_frame s) = -1
              then map (\<lambda>l. ErrorNotify l (mkError ConnectionResetError ''Connection reset by peer''))
                     (listeners s)
              else [])
        else [])"
  by (simp add: checkConnectionState_def error_def Let_def case_prod_beta send_frame)

lemma run_switch_connected:
  "state s = Connected \<Longrightarrow>
   run_switch env s =
     (case receiveNextMessage env (sendQueued s) of
        Inl f \<Rightarrow> Inl f
      | Inr s3 \<Rightarrow>
          if next_state s3 \<noteq> Error then Inr (checkConnectionState env s3) else Inr s3)"
  by (simp add: run_switch_def)

lemma run_switch_connected_trace:
  assumes "state s = Connected" and "run_switch env s = Inr p"
  shows "\<exists>s3 ev k. receiveNextMessage env (sendQueued s) = Inr s3
           \<and> trace s3 = trace (sendQueued s) @ ev \<and> list_all quiet ev
           \<and> lock_discipline [] ev
           \<and> trace p = trace s3 @ k
           \<and> (k = [] \<or> (\<exists>errs. k = SockSend (socketId s) keepalive_frame # errs
                              \<and> list_all quiet errs \<and> lock_discipline [] errs))
           \<and> state p = state s \<and> listeners p = listeners s \<and> sendQueue p = []"
proof -
  obtain s3 where r: "receiveNextMessage env (sendQueued s) = Inr s3"
    and p: "p = (if next_state s3 \<noteq> Error then checkConnectionState env s3 else s3)"
    using assms by (auto simp: run_switch_connected split: sum.splits if_splits)
  have f: "state s3 = state (sendQueued s) \<and> listeners s3 = listeners (sendQueued s)
         \<and> sendQueue s3 = sendQueue (sendQueued s) \<and> socketId s3 = socketId (sendQueued s)
         \<and> lastKeepAliveSent s3 = lastKeepAliveSent (sendQueued s)
         \<and> message_types s3 = message_types (sendQueued s)
         \<and> outgoing s3 = outgoing (sendQueued s)
         \<and> (\<exists>ev. trace s3 = trace (sendQueued s) @ ev \<and> list_all quiet ev
                \<and> lock_discipline [] ev)"
    using r by (intro cycle_result_fields cycle_result_receiveNextMessage)
  then obtain ev where ev: "trace s3 = trace (sendQueued s) @ ev" "list_all quiet ev"
    "lock_discipline [] ev"
    by blast
  have g: "state s3 = state s" "listeners s3 = listeners s" "sendQueue s3 = []"
    "socketId s3 = socketId s"
    using f by (simp_all add: sendQueued_frame)
  have k: "\<exists>k. trace p = trace s3 @ k
           \<and> (k = [] \<or> (\<exists>errs. k = SockSend (socketId s) keepalive_frame # errs
                              \<and> list_all quiet errs \<and> lock_discipline [] errs))"
    unfolding p using g(4)
    by (simp add: checkConnectionState_trace quiet_ErrorNotify lock_discipline_ErrorNotify)
  have "state p = state s \<and> listeners p = listeners s \<and> sendQueue p = []"
    unfolding p using g by (simp add: checkConnectionState_fields)
  with r ev k show ?thesis by blast
qed

lemma lock_discipline_drain:
  "lock_discipline [sendQueueMutex] (drain_accesses q @ MutexUnlock sendQueueMutex # rest)
     = lock_discipline [] rest"
  by (induction q) simp_all

lemma lock_discipline_frames:
  "lock_discipline [] (concat (map (spec_frame_sends fd) ms) @ rest) = lock_discipline [] rest"
  by (induction ms) (simp_all add: spec_frame_sends_def)

lemma lock_discipline_locked_section:
  "lock_discipline []
     ([MutexLock sendQueueMutex] @ drain_accesses q @ [MutexUnlock sendQueueMutex] @ rest)
     = lock_discipline [] rest"
  by (simp add: lock_discipline_drain)

lemma idle_iteration_completes:
  assumes "state s = Connected" and "current_message s = None" and "incoming s = []"
  shows "\<exists>s'. run_iteration env s = Inr s'"
proof -
  have cm: "current_message (sendQueued s) = None" and inc: "incoming (sendQueued s) = []"
    using assms(2,3) by (simp_all add: sendQueued_frame)
  have "\<exists>s3. receiveNextMessage env (sendQueued s) = Inr s3"
    by (simp add: receiveNextMessage_def receive_header_def readInt32_def recv_def cm inc
          new_WireMessage_def)
  then show ?thesis
    using assms(1) by (auto simp: run_iteration_def run_switch_connected)
qed

text \<open>
  Claim C7. In the \<^verbatim>\<open>Connected\<close> case the locked section takes the mutex, reads and
  pops the messages of the send queue front first until the size it reads is zero, and only
  then releases the mutex: every access to the queue lies between the one lock and the one
  unlock, the batch is the whole queue in order, and the queue is empty when the mutex is
  released. After the unlock the batch is sent message by message in the order of the queue,
  each message as the four sends of its frame, exactly once. An iteration that completes
  keeps the locking discipline throughout (queues are accessed only with their mutex held,
  sends and callbacks are made with no mutex held), ends with the queue still empty, and
  after the batch has neither accessed the send queue again nor sent anything but, at most,
  one keepalive; an iteration that faults does so in the receive cycle, after the batch was
  sent.
\<close>
theorem outbound_batch_sent_in_order:
  assumes "state s = Connected"
  shows "fst (drainSendQueue s) = sendQueue s
       \<and> sendQueue (snd (drainSendQueue s)) = []
       \<and> trace (snd (drainSendQueue s))
           = trace s @ [MutexLock sendQueueMutex] @ drain_accesses (sendQueue s)
               @ [MutexUnlock sendQueueMutex]
       \<and> lock_discipline [sendQueueMutex] (drain_accesses (sendQueue s) @ [MutexUnlock sendQueueMutex])
       \<and> sendQueue (sendQueued s) = []
       \<and> trace (sendQueued s)
           = trace s @ [MutexLock sendQueueMutex] @ drain_accesses (sendQueue s)
               @ [MutexUnlock sendQueueMutex]
               @ concat (map (spec_frame_sends (socketId s)) (sendQueue s))
       \<and> (\<forall>f. run_iteration env s = Inl f \<longrightarrow>
              receiveNextMessage env (sendQueued s) = Inl f)
       \<and> (\<forall>s'. run_iteration env s = Inr s' \<longrightarrow>
              sendQueue s' = []
              \<and> lock_discipline [] (drop (length (trace s)) (trace s'))
              \<and> (\<exists>ev. trace s' = trace (sendQueued s) @ ev
                     \<and> filter (touches sendQueueMutex) ev = []
                     \<and> (filter is_send ev = []
                          \<or> filter is_send ev = [SockSend (socketId s) keepalive_frame])))"
proof -
  let ?q = "sendQueue s"
  let ?a = "[MutexLock sendQueueMutex] @ drain_accesses ?q @ [MutexUnlock sendQueueMutex]"
  let ?b = "concat (map (spec_frame_sends (socketId s)) ?q)"
  have a: "fst (drainSendQueue s) = sendQueue s \<and> sendQueue (snd (drainSendQueue s)) = []
       \<and> trace (snd (drainSendQueue s)) = trace s @ ?a"
    by (simp add: drainSendQueue_all)
  have l: "lock_discipline [sendQueueMutex] (drain_accesses ?q @ [MutexUnlock sendQueueMutex])"
    using lock_discipline_drain [of ?q "[]"] by simp
  have b: "sendQueue (sendQueued s) = [] \<and> trace (sendQueued s) = trace s @ ?a @ ?b"
    by (simp add: sendQueued_frame)
  have b': "sendQueue (sendQueued s) = []
       \<and> trace (sendQueued s)
           = trace s @ [MutexLock sendQueueMutex] @ drain_accesses (sendQueue s)
               @ [MutexUnlock sendQueueMutex]
               @ concat (map (spec_frame_sends (socketId s)) (sendQueue s))"
    by (simp add: sendQueued_frame)
  have c: "receiveNextMessage env (sendQueued s) = Inl f" if "run_iteration env s = Inl f" for f
    using that assms
    by (auto simp: run_iteration_def run_switch_connected split: sum.splits if_splits)
  have d: "sendQueue s' = []
           \<and> lock_discipline [] (drop (length (trace s)) (trace s'))
           \<and> (\<exists>ev. trace s' = trace (sendQueued s) @ ev
                  \<and> filter (touches sendQueueMutex) ev = []
                  \<and> (filter is_send ev = []
                       \<or> filter is_send ev = [SockSend (socketId s) keepalive_frame]))"
    if it: "run_iteration env s = Inr s'" for s'
  proof -
    obtain p where p: "run_switch env s = Inr p" "s' = run_commit p"
      using it by (auto simp: run_iteration_def split: sum.splits)
    obtain s3 :: SocketPrivate and ev k
      where t: "trace s3 = trace (sendQueued s) @ ev" "list_all quiet ev"
        "lock_discipline [] ev" "trace p = trace s3 @ k"
        "k = [] \<or> (\<exists>errs. k = SockSend (socketId s) keepalive_frame # errs
                        \<and> list_all quiet errs \<and> lock_discipline [] errs)"
        "sendQueue p = []"
      using run_switch_connected_trace [OF assms p(1)] by blast
    let ?c = "if next_state p \<noteq> state p
              then map (\<lambda>l. StateChangedNotify l (next_state p)) (listeners p) else []"
    have tc: "trace s' = trace p @ ?c" and q: "sendQueue s' = []"
      using p(2) t(6) by (simp_all add: run_commit_def)
    have fc: "filter is_send ?c = []" "filter (touches sendQueueMutex) ?c = []"
      by (auto simp: filter_empty_conv)
    have lc: "lock_discipline [] ?c" by (simp add: lock_discipline_StateChangedNotify)
    have fe: "filter is_send ev = []" "filter (touches sendQueueMutex) ev = []"
      using t(2) by (simp_all add: quiet_filters)
    have fk: "filter is_send k = [] \<or> filter is_send k = [SockSend (socketId s) keepalive_frame]"
      using t(5) by (auto simp: quiet_filters)
    have tk: "filter (touches sendQueueMutex) k = []"
      using t(5) by (auto simp: quiet_filters)
    have lk: "lock_discipline [] k" using t(5) by auto
    have whole: "trace s' = trace (sendQueued s) @ (ev @ k @ ?c)" using tc t(1,4) by simp
    have sends: "filter is_send (ev @ k @ ?c) = []
        \<or> filter is_send (ev @ k @ ?c) = [SockSend (socketId s) keepalive_frame]"
      using fc fe fk by auto
    have untouched: "filter (touches sendQueueMutex) (ev @ k @ ?c) = []"
      using fc fe tk by simp
    have "lock_discipline [] (ev @ k @ ?c)"
      using t(3) lk lc by (simp add: lock_discipline_append)
    then have "lock_discipline [] (?a @ ?b @ (ev @ k @ ?c))"
      by (simp add: lock_discipline_drain lock_discipline_frames)
    moreover have "drop (length (trace s)) (trace s') = ?a @ ?b @ (ev @ k @ ?c)"
      using whole b by simp
    ultimately have "lock_discipline [] (drop (length (trace s)) (trace s'))" by simp
    with q whole sends untouched show ?thesis by blast
  qed
  from a l b' c d show ?thesis by blast
qed

theorem outbound_batch_sent_in_order_witness:
  "state ((example_socket Connected [])
            \<lparr>sendQueue := [\<lparr>type_id = 7, serialized = [9]\<rparr>, \<lparr>type_id = 8, serialized = []\<rparr>]\<rparr>)
     = Connected
   \<and> sendQueue (sendQueued ((example_socket Connected [])
            \<lparr>sendQueue := [\<lparr>type_id = 7, serialized = [9]\<rparr>, \<lparr>type_id = 8, serialized = []\<rparr>]\<rparr>))
     = []
   \<and> trace (sendQueued ((example_socket Connected [])
            \<lparr>sendQueue := [\<lparr>type_id = 7, serialized = [9]\<rparr>, \<lparr>type_id = 8, serialized = []\<rparr>]\<rparr>))
     = [MutexLock sendQueueMutex,
        QueueOp sendQueueMutex (QSize 2),
        QueueOp sendQueueMutex (QFront \<lparr>type_id = 7, serialized = [9]\<rparr>),
        QueueOp sendQueueMutex QPopFront,
        QueueOp sendQueueMutex (QSize 1),
        QueueOp sendQueueMutex (QFront \<lparr>type_id = 8, serialized = []\<rparr>),
        QueueOp sendQueueMutex QPopFront,
        QueueOp sendQueueMutex (QSize 0),
        MutexUnlock sendQueueMutex,
        SockSend 3 [0x2B, 0xAD, 1, 0], SockSend 3 [0, 0, 0, 1], SockSend 3 [0, 0, 0, 7],
        SockSend 3 [9],
        SockSend 3 [0x2B, 0xAD, 1, 0], SockSend 3 [0, 0, 0, 0], SockSend 3 [0, 0, 0, 8],
        SockSend 3 []]
   \<and> (\<exists>s'. run_iteration example_env ((example_socket Connected [])
            \<lparr>sendQueue := [\<lparr>type_id = 7, serialized = [9]\<rparr>, \<lparr>type_id = 8, serialized = []\<rparr>]\<rparr>)
            = Inr s' \<and> sendQueue s' = []
          \<and> lock_discipline [] (trace s'))"
proof -
  let ?s = "(example_socket Connected [])
            \<lparr>sendQueue := [\<lparr>type_id = 7, serialized = [9]\<rparr>, \<lparr>type_id = 8, serialized = []\<rparr>]\<rparr>"
  have h: "state ?s = Connected" by (simp add: example_socket_def)
  note inst = outbound_batch_sent_in_order [OF h, of example_env]
  have q: "sendQueue ?s = [\<lparr>type_id = 7, serialized = [9]\<rparr>, \<lparr>type_id = 8, serialized = []\<rparr>]"
    "trace ?s = []" "socketId ?s = 3"
    by (simp_all add: example_socket_def)
  have tr: "trace (sendQueued ?s)
     = [MutexLock sendQueueMutex,
        QueueOp sendQueueMutex (QSize 2),
        QueueOp sendQueueMutex (QFront \<lparr>type_id = 7, serialized = [9]\<rparr>),
        QueueOp sendQueueMutex QPopFront,
        QueueOp sendQueueMutex (QSize 1),
        QueueOp sendQueueMutex (QFront \<lparr>type_id = 8, serialized = []\<rparr>),
        QueueOp sendQueueMutex QPopFront,
        QueueOp sendQueueMutex (QSize 0),
        MutexUnlock sendQueueMutex,
        SockSend 3 [0x2B, 0xAD, 1, 0], SockSend 3 [0, 0, 0, 1], SockSend 3 [0, 0, 0, 7],
        SockSend 3 [9],
        SockSend 3 [0x2B, 0xAD, 1, 0], SockSend 3 [0, 0, 0, 0], SockSend 3 [0, 0, 0, 8],
        SockSend 3 []]"
    using inst unfolding q by (simp add: spec_frame_sends_def htonl_def)
  have "\<exists>s'. run_iteration example_env ?s = Inr s'"
    by (rule idle_iteration_completes) (simp_all add: example_socket_def)
  then obtain s' where s': "run_iteration example_env ?s = Inr s'" by blast
  have "sendQueue s' = [] \<and> lock_discipline [] (drop (length (trace ?s)) (trace s'))"
    using s' inst by blast
  then have "sendQueue s' = [] \<and> lock_discipline [] (trace s')" unfolding q by simp
  with s' have "\<exists>s'. run_iteration example_env ?s = Inr s' \<and> sendQueue s' = []
      \<and> lock_discipline [] (trace s')"
    by blast
  with h tr inst show ?thesis by blast
qed

lemma receive_pending_error:
  assumes "receiveNextMessage env s = Inr s3" and "next_state s3 = Error"
  shows "next_state s = Error \<or> (alloc_fails env \<and> fatal_error (last_error s3))"
  using cycle_result_pending [OF cycle_result_receiveNextMessage [OF assms(1)]] assms(2)
  by auto

lemma duration_cast_ms_exceeds:
  assumes "0 < tpm"
  shows "(500 < duration_cast_ms tpm d) = (501 * tpm \<le> d)"
proof (cases "0 \<le> d")
  case False
  have "0 \<le> (- d) div tpm" using False assms by (simp add: pos_imp_zdiv_nonneg_iff)
  then have "\<not> 500 < duration_cast_ms tpm d" using False by (simp add: duration_cast_ms_def)
  moreover have "0 < 501 * tpm" using assms by simp
  then have "\<not> 501 * tpm \<le> d" using False by linarith
  ultimately show ?thesis by simp
next
  case True
  have "(500 < d div tpm) = (501 * tpm \<le> d)"
  proof
    assume "500 < d div tpm"
    then have "501 \<le> d div tpm" by simp
    then have "501 * tpm \<le> (d div tpm) * tpm" using assms by (intro mult_right_mono) simp_all
    also have "\<dots> = d - d mod tpm" by (simp add: minus_mod_eq_div_mult)
    also have "\<dots> \<le> d" using pos_mod_sign [OF assms, of d] by simp
    finally show "501 * tpm \<le> d" .
  next
    assume "501 * tpm \<le> d"
    then have "(501 * tpm) div tpm \<le> d div tpm" using assms by (intro zdiv_mono1)
    then show "500 < d div tpm" using assms by simp
  qed
  then show ?thesis using True by (simp add: duration_cast_ms_def)
qed

lemma sendQueued_empty:
  "sendQueue s = [] \<Longrightarrow> outgoing (sendQueued s) = outgoing s \<and> errno (sendQueued s) = errno s"
  by (simp add: sendQueued_def drainSendQueue_all)

lemma idle_cycle:
  assumes "current_message s = None" and "incoming s = []"
  shows "\<exists>s3. receiveNextMessage env s = Inr s3 \<and> trace s3 = trace s
           \<and> next_state s3 = next_state s \<and> outgoing s3 = outgoing s
           \<and> last_error s3 = last_error s"
  using assms
  by (simp add: receiveNextMessage_def receive_header_def readInt32_def recv_def
        new_WireMessage_def)

text \<open>
  Claim C4, as the code has it. In a \<^verbatim>\<open>Connected\<close> iteration whose receive cycle has not
  left the pending state at \<^verbatim>\<open>Error\<close> (the code's test that no error stopped this tick;
  by \<open>receive_pending_error\<close> the cycle sets it only through a fatal error), the time since
  \<^verbatim>\<open>lastKeepAliveSent\<close> is converted to whole milliseconds, rounding towards zero, and
  compared with 500: the keepalive is due when at least 501 ms have passed. When it is due,
  exactly one frame of four zero bytes is sent after the receive cycle and
  \<^verbatim>\<open>lastKeepAliveSent\<close> becomes the current time; if that send returns -1 the non-fatal
  \<^verbatim>\<open>ConnectionResetError\<close> is recorded and notified and the pending state becomes
  \<^verbatim>\<open>Closing\<close>, otherwise error and pending state are as the receive cycle left them. When
  it is not due the iteration does nothing after the receive cycle.
\<close>
theorem keepalive_sent_when_due:
  assumes "state s = Connected"
    and "receiveNextMessage env (sendQueued s) = Inr s3"
    and "next_state s3 \<noteq> Error"
  shows "(0 < ticks_per_ms env \<longrightarrow>
            (500 < duration_cast_ms (ticks_per_ms env) (clock_now env - lastKeepAliveSent s))
              = (501 * ticks_per_ms env \<le> clock_now env - lastKeepAliveSent s))
       \<and> (500 < duration_cast_ms (ticks_per_ms env) (clock_now env - lastKeepAliveSent s) \<longrightarrow>
            (\<exists>p. run_switch env s = Inr p
               \<and> run_iteration env s = Inr (run_commit p)
               \<and> keepalive_frame = [0, 0, 0, 0]
               \<and> trace p = trace s3 @ SockSend (socketId s) keepalive_frame #
                    (if fst (send keepalive_frame s3) = -1
                     then map (\<lambda>l. ErrorNotify l \<lparr>error_code = ConnectionResetError,
                            error_message = ''Connection reset by peer'', fatal_error = False\<rparr>)
                            (listeners s)
                     else [])
               \<and> filter is_send (drop (length (trace s3)) (trace p))
                   = [SockSend (socketId s) keepalive_frame]
               \<and> lastKeepAliveSent p = clock_now env
               \<and> (if fst (send keepalive_frame s3) = -1
                   then last_error p = \<lparr>error_code = ConnectionResetError,
                            error_message = ''Connection reset by peer'', fatal_error = False\<rparr>
                        \<and> next_state p = Closing
                   else last_error p = last_error s3 \<and> next_state p = next_state s3)))
       \<and> (\<not> 500 < duration_cast_ms (ticks_per_ms env) (clock_now env - lastKeepAliveSent s) \<longrightarrow>
            run_switch env s = Inr s3)"
proof -
  have f: "listeners s3 = listeners (sendQueued s) \<and> socketId s3 = socketId (sendQueued s)
         \<and> lastKeepAliveSent s3 = lastKeepAliveSent (sendQueued s)"
    using cycle_result_fields [OF cycle_result_receiveNextMessage [OF assms(2)]] by simp
  have g: "listeners s3 = listeners s" "socketId s3 = socketId s"
    "lastKeepAliveSent s3 = lastKeepAliveSent s"
    using f by (simp_all add: sendQueued_frame)
  let ?due = "500 < duration_cast_ms (ticks_per_ms env) (clock_now env - lastKeepAliveSent s)"
  let ?p = "checkConnectionState env s3"
  have sw: "run_switch env s = Inr ?p"
    using assms by (simp add: run_switch_connected)
  have it: "run_iteration env s = Inr (run_commit ?p)"
    using sw by (simp add: run_iteration_def)
  have eq: "?due = (501 * ticks_per_ms env \<le> clock_now env - lastKeepAliveSent s)"
    if "0 < ticks_per_ms env"
    using that by (rule duration_cast_ms_exceeds)
  have kf: "keepalive_frame = [0, 0, 0, 0]" by (simp add: keepalive_frame_def)
  have late: "run_switch env s = Inr s3" if "\<not> ?due"
    using that sw g(3) by (simp add: checkConnectionState_def keepAliveRate_def Let_def)
  have due: "\<exists>p. run_switch env s = Inr p
               \<and> run_iteration env s = Inr (run_commit p)
               \<and> keepalive_frame = [0, 0, 0, 0]
               \<and> trace p = trace s3 @ SockSend (socketId s) keepalive_frame #
                    (if fst (send keepalive_frame s3) = -1
                     then map (\<lambda>l. ErrorNotify l \<lparr>error_code = ConnectionResetError,
                            error_message = ''Connection reset by peer'', fatal_error = False\<rparr>)
                            (listeners s)
                     else [])
               \<and> filter is_send (drop (length (trace s3)) (trace p))
                   = [SockSend (socketId s) keepalive_frame]
               \<and> lastKeepAliveSent p = clock_now env
               \<and> (if fst (send keepalive_frame s3) = -1
                   then last_error p = \<lparr>error_code = ConnectionResetError,
                            error_message = ''Connection reset by peer'', fatal_error = False\<rparr>
                        \<and> next_state p = Closing
                   else last_error p = last_error s3 \<and> next_state p = next_state s3)"
    if d: "?due"
  proof -
    have d3: "duration_cast_ms (ticks_per_ms env) (clock_now env - lastKeepAliveSent s3)
                > keepAliveRate"
      using d g(3) by (simp add: keepAliveRate_def)
    have tr: "trace ?p = trace s3 @ SockSend (socketId s) keepalive_frame #
                (if fst (send keepalive_frame s3) = -1
                 then map (\<lambda>l. ErrorNotify l \<lparr>error_code = ConnectionResetError,
                        error_message = ''Connection reset by peer'', fatal_error = False\<rparr>)
                        (listeners s)
                 else [])"
      using d3 g by (simp add: checkConnectionState_trace mkError_def)
    have one: "filter is_send (drop (length (trace s3)) (trace ?p))
               = [SockSend (socketId s) keepalive_frame]"
      unfolding tr by (auto simp: filter_empty_conv)
    have rest: "lastKeepAliveSent ?p = clock_now env
           \<and> (if fst (send keepalive_frame s3) = -1
               then last_error ?p = \<lparr>error_code = ConnectionResetError,
                        error_message = ''Connection reset by peer'', fatal_error = False\<rparr>
                    \<and> next_state ?p = Closing
               else last_error ?p = last_error s3 \<and> next_state ?p = next_state s3)"
      using d3
      by (simp add: checkConnectionState_def error_def mkError_def Let_def case_prod_beta
            send_frame)
    from sw it kf tr one rest show ?thesis by blast
  qed
  from eq due late show ?thesis by blast
qed

theorem keepalive_sent_when_due_witness:
  "state ((example_socket Connected [])
            \<lparr>lastKeepAliveSent := 900000000, outgoing := [SendError 32]\<rparr>) = Connected
   \<and> 0 < ticks_per_ms (example_env\<lparr>clock_now := 1401000000\<rparr>)
   \<and> 501 * ticks_per_ms (example_env\<lparr>clock_now := 1401000000\<rparr>)
       \<le> clock_now (example_env\<lparr>clock_now := 1401000000\<rparr>)
          - lastKeepAliveSent ((example_socket Connected [])
              \<lparr>lastKeepAliveSent := 900000000, outgoing := [SendError 32]\<rparr>)
   \<and> 500 < duration_cast_ms (ticks_per_ms (example_env\<lparr>clock_now := 1401000000\<rparr>))
        (clock_now (example_env\<lparr>clock_now := 1401000000\<rparr>)
          - lastKeepAliveSent ((example_socket Connected [])
              \<lparr>lastKeepAliveSent := 900000000, outgoing := [SendError 32]\<rparr>))
   \<and> (\<exists>s3 p. receiveNextMessage (example_env\<lparr>clock_now := 1401000000\<rparr>)
                   (sendQueued ((example_socket Connected [])
                      \<lparr>lastKeepAliveSent := 900000000, outgoing := [SendError 32]\<rparr>)) = Inr s3
          \<and> next_state s3 \<noteq> Error
          \<and> fst (send keepalive_frame s3) = -1
          \<and> run_switch (example_env\<lparr>clock_now := 1401000000\<rparr>)
                   ((example_socket Connected [])
                      \<lparr>lastKeepAliveSent := 900000000, outgoing := [SendError 32]\<rparr>) = Inr p
          \<and> trace p = [MutexLock sendQueueMutex, QueueOp sendQueueMutex (QSize 0),
                         MutexUnlock sendQueueMutex,
                         SockSend 3 [0, 0, 0, 0],
                         ErrorNotify 0 \<lparr>error_code = ConnectionResetError,
                           error_message = ''Connection reset by peer'', fatal_error = False\<rparr>,
                         ErrorNotify 1 \<lparr>error_code = ConnectionResetError,
                           error_message = ''Connection reset by peer'', fatal_error = False\<rparr>]
          \<and> lastKeepAliveSent p = 1401000000
          \<and> next_state p = Closing)"
proof -
  let ?e = "example_env\<lparr>clock_now := 1401000000\<rparr>"
  let ?s = "(example_socket Connected [])
              \<lparr>lastKeepAliveSent := 900000000, outgoing := [SendError 32]\<rparr>"
  have h1: "state ?s = Connected" by (simp add: example_socket_def)
  have e: "socketId ?s = 3" "listeners ?s = [0, 1]" "clock_now ?e = 1401000000"
    "ticks_per_ms ?e = 1000000" "lastKeepAliveSent ?s = 900000000" "sendQueue ?s = []"
    "trace ?s = []" "next_state ?s = Connected" "outgoing ?s = [SendError 32]"
    by (simp_all add: example_socket_def example_env_def)
  have q: "current_message (sendQueued ?s) = None" "incoming (sendQueued ?s) = []"
    "trace (sendQueued ?s)
       = [MutexLock sendQueueMutex, QueueOp sendQueueMutex (QSize 0), MutexUnlock sendQueueMutex]"
    "next_state (sendQueued ?s) = Connected" "outgoing (sendQueued ?s) = [SendError 32]"
    using sendQueued_empty [OF e(6)] e
    by (simp_all add: sendQueued_frame example_socket_def)
  obtain s3 where s3: "receiveNextMessage ?e (sendQueued ?s) = Inr s3"
    "trace s3 = trace (sendQueued ?s)" "next_state s3 = next_state (sendQueued ?s)"
    "outgoing s3 = outgoing (sendQueued ?s)"
    using idle_cycle [OF q(1,2), of ?e] by blast
  have h3: "next_state s3 \<noteq> Error" using s3(3) q(4) by simp
  have fl: "fst (send keepalive_frame s3) = -1" using s3(4) q(5) by (simp add: send_def)
  have due1: "0 < ticks_per_ms ?e" "501 * ticks_per_ms ?e \<le> clock_now ?e - lastKeepAliveSent ?s"
    unfolding e by simp_all
  note inst = keepalive_sent_when_due [OF h1 s3(1) h3]
  have due2: "500 < duration_cast_ms (ticks_per_ms ?e) (clock_now ?e - lastKeepAliveSent ?s)"
    using inst due1 by blast
  obtain p where p: "run_switch ?e ?s = Inr p"
    "trace p = trace s3 @ SockSend (socketId ?s) keepalive_frame #
                (if fst (send keepalive_frame s3) = -1
                 then map (\<lambda>l. ErrorNotify l \<lparr>error_code = ConnectionResetError,
                        error_message = ''Connection reset by peer'', fatal_error = False\<rparr>)
                        (listeners ?s)
                 else [])"
    "lastKeepAliveSent p = clock_now ?e"
    "if fst (send keepalive_frame s3) = -1
               then last_error p = \<lparr>error_code = ConnectionResetError,
                        error_message = ''Connection reset by peer'', fatal_error = False\<rparr>
                    \<and> next_state p = Closing
               else last_error p = last_error s3 \<and> next_state p = next_state s3"
    using inst due2 by blast
  have t: "trace p = [MutexLock sendQueueMutex, QueueOp sendQueueMutex (QSize 0),
                         MutexUnlock sendQueueMutex,
                         SockSend 3 [0, 0, 0, 0],
                         ErrorNotify 0 \<lparr>error_code = ConnectionResetError,
                           error_message = ''Connection reset by peer'', fatal_error = False\<rparr>,
                         ErrorNotify 1 \<lparr>error_code = ConnectionResetError,
                           error_message = ''Connection reset by peer'', fatal_error = False\<rparr>]"
    using p(2) unfolding fl s3(2) q(3) e by (simp add: keepalive_frame_def)
  have k: "lastKeepAliveSent p = 1401000000" "next_state p = Closing"
    using p(3,4) unfolding fl e by simp_all
  from h1 due1 due2 s3(1) h3 fl p(1) t k show ?thesis by blast
qed

text \<open>
  Claim C4 as stated fails between 500 and 501 ms. With a clock that counts nanoseconds,
  \<^verbatim>\<open>lastKeepAliveSent\<close> at 900.9 ms and the current time at 1401.0 ms, 500.1 ms have
  passed, which is more than 500 ms, and nothing has gone wrong in the iteration; the
  difference converts to 500, which is not greater than 500, and the iteration sends nothing
  and leaves \<^verbatim>\<open>lastKeepAliveSent\<close> as it was.
\<close>
theorem keepalive_not_sent_before_501_ms:
  "state ((example_socket Connected [])\<lparr>lastKeepAliveSent := 900900000\<rparr>) = Connected
   \<and> ticks_per_ms (example_env\<lparr>clock_now := 1401000000\<rparr>) = 1000000
   \<and> clock_now (example_env\<lparr>clock_now := 1401000000\<rparr>)
       - lastKeepAliveSent ((example_socket Connected [])\<lparr>lastKeepAliveSent := 900900000\<rparr>)
       = 500100000
   \<and> 500 * ticks_per_ms (example_env\<lparr>clock_now := 1401000000\<rparr>)
       < clock_now (example_env\<lparr>clock_now := 1401000000\<rparr>)
          - lastKeepAliveSent ((example_socket Connected [])\<lparr>lastKeepAliveSent := 900900000\<rparr>)
   \<and> run_switch (example_env\<lparr>clock_now := 1401000000\<rparr>)
         ((example_socket Connected [])\<lparr>lastKeepAliveSent := 900900000\<rparr>)
       = Inr ((example_socket Connected [])
               \<lparr>lastKeepAliveSent := 900900000,
                 current_message := Some new_WireMessage,
                 errno := EAGAIN,
                 trace := [MutexLock sendQueueMutex, QueueOp sendQueueMutex (QSize 0),
                           MutexUnlock sendQueueMutex]\<rparr>)
   \<and> run_iteration (example_env\<lparr>clock_now := 1401000000\<rparr>)
         ((example_socket Connected [])\<lparr>lastKeepAliveSent := 900900000\<rparr>)
       = Inr ((example_socket Connected [])
               \<lparr>lastKeepAliveSent := 900900000,
                 current_message := Some new_WireMessage,
                 errno := EAGAIN,
                 trace := [MutexLock sendQueueMutex, QueueOp sendQueueMutex (QSize 0),
                           MutexUnlock sendQueueMutex]\<rparr>)"
  by (simp add: run_iteration_def run_commit_def run_switch_def sendQueued_def
        drainSendQueue_def receiveNextMessage_def receive_header_def readInt32_def recv_def
        checkConnectionState_def duration_cast_ms_def keepAliveRate_def example_socket_def
        example_env_def new_WireMessage_def Let_def)

section \<open>The commit of the pending state\<close>

lemma run_switch_steady:
  assumes "run_switch env s = Inr p"
  shows "state p = state s \<and> listeners p = listeners s
         \<and> (\<exists>ev. trace p = trace s @ ev \<and> filter is_state_changed ev = [])"
proof (cases "state s = Connected")
  case True
  obtain s3 :: SocketPrivate and ev k
    where t: "trace s3 = trace (sendQueued s) @ ev" "list_all quiet ev"
      "trace p = trace s3 @ k"
      "k = [] \<or> (\<exists>errs. k = SockSend (socketId s) keepalive_frame # errs \<and> list_all quiet errs
                                 \<and> lock_discipline [] errs)"
      "state p = state s" "listeners p = listeners s"
    using run_switch_connected_trace [OF True assms] by blast
  let ?a = "[MutexLock sendQueueMutex] @ drain_accesses (sendQueue s)
              @ [MutexUnlock sendQueueMutex]
              @ concat (map (spec_frame_sends (socketId s)) (sendQueue s))"
  have da: "filter is_state_changed (drain_accesses q) = []" for q
    by (induction q) simp_all
  have "trace p = trace s @ (?a @ ev @ k)"
    using t(1,3) by (simp add: sendQueued_frame)
  moreover have "filter is_state_changed ?a = []"
    by (auto simp: filter_empty_conv spec_frame_sends_def da)
  moreover have "filter is_state_changed ev = []" using t(2) by (simp add: quiet_filters)
  moreover have "filter is_state_changed k = []" using t(4) by (auto simp: quiet_filters)
  ultimately have "trace p = trace s @ (?a @ ev @ k)
      \<and> filter is_state_changed (?a @ ev @ k) = []"
    by simp
  then have "\<exists>ev. trace p = trace s @ ev \<and> filter is_state_changed ev = []" by blast
  with t(5,6) show ?thesis by blast
next
  case False
  then show ?thesis
    using assms
    by (cases "state s")
       (auto simp: run_switch_def fatalError_def setSocketReceiveTimeout_def returned_def
          Let_def filter_empty_conv split: if_splits)
qed


text \<open>
  Claim C8. An iteration that completes does its work without changing the current state,
  the listeners, or announcing any state change; then, if the pending state differs from the
  current state, the current state becomes the pending state and one state-changed
  notification carrying it goes to each listener, in registration order, and these are the
  only state-changed notifications of the iteration; if they are equal the state stays and
  no state-changed notification is made.
\<close>
theorem state_change_committed_once:
  assumes "run_iteration env s = Inr s'"
  shows "\<exists>p ev. run_switch env s = Inr p
           \<and> state p = state s \<and> listeners p = listeners s
           \<and> trace p = trace s @ ev \<and> filter is_state_changed ev = []
           \<and> next_state s' = next_state p \<and> listeners s' = listeners s
           \<and> (if next_state p \<noteq> state s
               then state s' = next_state p
                    \<and> trace s' = trace p @
                          map (\<lambda>l. StateChangedNotify l (next_state p)) (listeners s)
               else state s' = state s \<and> trace s' = trace p)
           \<and> filter is_state_changed (drop (length (trace s)) (trace s'))
               = (if next_state p \<noteq> state s
                  then map (\<lambda>l. StateChangedNotify l (next_state p)) (listeners s)
                  else [])"
proof -
  obtain p where p: "run_switch env s = Inr p" "s' = run_commit p"
    using assms by (auto simp: run_iteration_def split: sum.splits)
  obtain ev where st: "state p = state s" "listeners p = listeners s"
    "trace p = trace s @ ev" "filter is_state_changed ev = []"
    using run_switch_steady [OF p(1)] by blast
  have c: "next_state s' = next_state p \<and> listeners s' = listeners s
           \<and> (if next_state p \<noteq> state s
               then state s' = next_state p
                    \<and> trace s' = trace p @
                          map (\<lambda>l. StateChangedNotify l (next_state p)) (listeners s)
               else state s' = state s \<and> trace s' = trace p)"
    unfolding p(2) using st(1,2) by (simp add: run_commit_def)
  have all: "filter is_state_changed (map (\<lambda>l. StateChangedNotify l x) ls)
               = map (\<lambda>l. StateChangedNotify l x) ls" for x ls
    by (induction ls) simp_all
  have "filter is_state_changed (drop (length (trace s)) (trace s'))
               = (if next_state p \<noteq> state s
                  then map (\<lambda>l. StateChangedNotify l (next_state p)) (listeners s)
                  else [])"
  proof (cases "next_state p \<noteq> state s")
    case True
    then have "trace s' = trace s @ ev @
                          map (\<lambda>l. StateChangedNotify l (next_state p)) (listeners s)"
      using c st(3) by simp
    then show ?thesis using True st(4) by (simp add: all)
  next
    case False
    then have "trace s' = trace s @ ev" using c st(3) by simp
    then show ?thesis using False st(4) by simp
  qed
  with p(1) st c show ?thesis by blast
qed

theorem state_change_committed_once_witness:
  "run_iteration example_env (example_socket Closing [])
     = Inr ((example_socket Closed [])
             \<lparr>trace := [SockClose 3, StateChangedNotify 0 Closed, StateChangedNotify 1 Closed]\<rparr>)
   \<and> (\<exists>p. run_switch example_env (example_socket Closing []) = Inr p
          \<and> next_state p = Closed \<and> state p = Closing \<and> trace p = [SockClose 3]
          \<and> filter is_state_changed
                (drop (length (trace (example_socket Closing [])))
                   (trace ((example_socket Closed [])
                     \<lparr>trace := [SockClose 3, StateChangedNotify 0 Closed,
                                 StateChangedNotify 1 Closed]\<rparr>)))
              = [StateChangedNotify 0 Closed, StateChangedNotify 1 Closed])"
proof -
  let ?s = "example_socket Closing []"
  let ?s' = "(example_socket Closed [])
             \<lparr>trace := [SockClose 3, StateChangedNotify 0 Closed, StateChangedNotify 1 Closed]\<rparr>"
  have h: "run_iteration example_env ?s = Inr ?s'"
    by (simp add: run_iteration_def run_switch_def run_commit_def returned_def
          example_socket_def example_env_def)
  have sw: "run_switch example_env ?s
              = Inr (?s\<lparr>trace := [SockClose 3], next_state := Closed\<rparr>)"
    by (simp add: run_switch_def returned_def example_socket_def example_env_def)
  obtain p where p: "run_switch example_env ?s = Inr p"
    "filter is_state_changed (drop (length (trace ?s)) (trace ?s'))
               = (if next_state p \<noteq> state ?s
                  then map (\<lambda>l. StateChangedNotify l (next_state p)) (listeners ?s)
                  else [])"
    using state_change_committed_once [OF h] by blast
  have pe: "p = ?s\<lparr>trace := [SockClose 3], next_state := Closed\<rparr>" using p(1) sw by simp
  have f: "next_state p = Closed" "state p = Closing" "trace p = [SockClose 3]"
    unfolding pe by (simp_all add: example_socket_def)
  have "filter is_state_changed (drop (length (trace ?s)) (trace ?s'))
          = [StateChangedNotify 0 Closed, StateChangedNotify 1 Closed]"
    using p(2) unfolding f by (simp add: example_socket_def)
  with h p(1) f show ?thesis by blast
qed

section \<open>The size stage\<close>

lemma negative_is_oversized: "(sint (w :: 32 word) < 0) = (2147483648 \<le> uint w)"
proof (cases "uint w < 2147483648")
  case True
  have "(- (2 ^ 31) :: int) \<le> 0" by simp
  also have "(0 :: int) \<le> uint w" by simp
  finally have "- (2 ^ 31) \<le> uint w" .
  moreover have "uint w < 2 ^ 31" using True by simp
  ultimately have "signed_take_bit 31 (uint w) = uint w"
    by (rule signed_take_bit_int_eq_self)
  then have "sint w = uint w" by (simp add: sint_uint)
  then show ?thesis using True by simp
next
  case False
  then have "signed_take_bit 31 (uint w) < uint w"
    by (simp add: signed_take_bit_int_less_self_iff)
  then have lt: "sint w < uint w" by (simp add: sint_uint)
  have "uint w = take_bit 32 (sint w)" using uint_sint [of w] by simp
  then have "uint w = sint w mod 4294967296" by (simp add: take_bit_eq_mod)
  then have "0 \<le> sint w \<Longrightarrow> uint w \<le> sint w"
    using zmod_le_nonneg_dividend [of "sint w" 4294967296] by simp
  then have "sint w < 0" using lt by linarith
  then show ?thesis using False by simp
qed


lemma receive_size_read:
  assumes "current_message s = Some m" and "msg_state m = MessageStateSize"
    and "incoming s = RecvData [a, b, c, d] # rest"
  shows "receiveNextMessage env s =
     (if sint (ntohl [a, b, c, d]) < 0
      then Inr (error ReceiveFailedError ''Size invalid'' (s\<lparr>incoming := rest\<rparr>))
      else receive_type env
             (s\<lparr>incoming := rest,
                current_message :=
                  Some (m\<lparr>msg_size := nat (sint (ntohl [a, b, c, d])),
                         msg_state := MessageStateType\<rparr>)\<rparr>))"
  using assms
  by (simp add: receiveNextMessage_def receive_header_def receive_size_def readInt32_four)

lemma cycle_result_fatal:
  assumes "cycle_result env s s'"
  shows "(next_state s' = next_state s
          \<and> (last_error s' = last_error s \<or> \<not> fatal_error (last_error s'))
          \<and> list_all advisory (drop (length (trace s)) (trace s')))
         \<or> (alloc_fails env
             \<and> last_error s' = \<lparr>error_code = ReceiveFailedError,
                   error_message = ''Out of memory'', fatal_error = True\<rparr>
             \<and> next_state s' = Error)"
proof (cases "calm s s'")
  case True
  then obtain ev where "trace s' = trace s @ ev" "list_all advisory ev"
    unfolding calm_def by blast
  then have "list_all advisory (drop (length (trace s)) (trace s'))" by simp
  then show ?thesis using True unfolding calm_def by blast
next
  case False
  then obtain s1 where f: "alloc_fails env" "s' = fatalError ReceiveFailedError ''Out of memory'' s1"
    using assms unfolding cycle_result_def by blast
  then show ?thesis by (simp add: fatalError_def setFatalError_def mkError_def Let_def)
qed

text \<open>
  Claim C3, as the code has it. The declared length is read as a signed 32-bit number. When
  it is negative, which is when the unsigned word on the wire is \<open>2\<^sup>3\<^sup>1\<close> or more, the
  cycle records and notifies the non-fatal \<^verbatim>\<open>ReceiveFailedError\<close> "Size invalid" and
  returns, with the state, the pending state and the frame (still at the size stage) as they
  were. Every other length, whatever its magnitude, is stored and the frame moves on to the
  type stage: the size stage has no upper bound. In a receive cycle the only fatal error is
  the failed allocation of the payload buffer.
\<close>
theorem size_field_decoding:
  assumes "current_message s = Some m" and "msg_state m = MessageStateSize"
    and "incoming s = RecvData [a, b, c, d] # rest"
  shows "(sint (ntohl [a, b, c, d]) < 0) = (2147483648 \<le> uint (ntohl [a, b, c, d]))
       \<and> (sint (ntohl [a, b, c, d]) < 0 \<longrightarrow>
            (\<exists>s'. receiveNextMessage env s = Inr s'
               \<and> trace s' = trace s @
                     map (\<lambda>l. ErrorNotify l \<lparr>error_code = ReceiveFailedError,
                            error_message = ''Size invalid'', fatal_error = False\<rparr>)
                       (listeners s)
               \<and> last_error s' = \<lparr>error_code = ReceiveFailedError,
                            error_message = ''Size invalid'', fatal_error = False\<rparr>
               \<and> state s' = state s \<and> next_state s' = next_state s
               \<and> current_message s' = Some m \<and> incoming s' = rest))
       \<and> (0 \<le> sint (ntohl [a, b, c, d]) \<longrightarrow>
            receiveNextMessage env s =
              receive_type env
                (s\<lparr>incoming := rest,
                   current_message :=
                     Some (m\<lparr>msg_size := nat (sint (ntohl [a, b, c, d])),
                            msg_state := MessageStateType\<rparr>)\<rparr>))
       \<and> (\<forall>s'. receiveNextMessage env s = Inr s' \<longrightarrow>
              (next_state s' = next_state s
               \<and> (last_error s' = last_error s \<or> \<not> fatal_error (last_error s'))
               \<and> list_all advisory (drop (length (trace s)) (trace s')))
              \<or> (alloc_fails env
                  \<and> last_error s' = \<lparr>error_code = ReceiveFailedError,
                        error_message = ''Out of memory'', fatal_error = True\<rparr>
                  \<and> next_state s' = Error))"
proof -
  note r = receive_size_read [OF assms, of env]
  have n: "\<exists>s'. receiveNextMessage env s = Inr s'
               \<and> trace s' = trace s @
                     map (\<lambda>l. ErrorNotify l \<lparr>error_code = ReceiveFailedError,
                            error_message = ''Size invalid'', fatal_error = False\<rparr>)
                       (listeners s)
               \<and> last_error s' = \<lparr>error_code = ReceiveFailedError,
                            error_message = ''Size invalid'', fatal_error = False\<rparr>
               \<and> state s' = state s \<and> next_state s' = next_state s
               \<and> current_message s' = Some m \<and> incoming s' = rest"
    if "sint (ntohl [a, b, c, d]) < 0"
    unfolding r using that assms(1) by (simp add: error_def mkError_def Let_def)
  have p: "receiveNextMessage env s =
              receive_type env
                (s\<lparr>incoming := rest,
                   current_message :=
                     Some (m\<lparr>msg_size := nat (sint (ntohl [a, b, c, d])),
                            msg_state := MessageStateType\<rparr>)\<rparr>)"
    if "0 \<le> sint (ntohl [a, b, c, d])"
    unfolding r using that by simp
  have f: "(next_state s' = next_state s
               \<and> (last_error s' = last_error s \<or> \<not> fatal_error (last_error s'))
               \<and> list_all advisory (drop (length (trace s)) (trace s')))
              \<or> (alloc_fails env
                  \<and> last_error s' = \<lparr>error_code = ReceiveFailedError,
                        error_message = ''Out of memory'', fatal_error = True\<rparr>
                  \<and> next_state s' = Error)"
    if "receiveNextMessage env s = Inr s'" for s'
    using that by (intro cycle_result_fatal cycle_result_receiveNextMessage)
  from negative_is_oversized [of "ntohl [a, b, c, d]"] n p f show ?thesis by blast
qed


theorem size_field_decoding_witness:
  "current_message ((example_socket Connected [RecvData [0xFF, 0xFF, 0xFF, 0xFF]])
       \<lparr>current_message := Some (new_WireMessage\<lparr>msg_state := MessageStateSize\<rparr>)\<rparr>)
     = Some (new_WireMessage\<lparr>msg_state := MessageStateSize\<rparr>)
   \<and> msg_state (new_WireMessage\<lparr>msg_state := MessageStateSize\<rparr>) = MessageStateSize
   \<and> incoming ((example_socket Connected [RecvData [0xFF, 0xFF, 0xFF, 0xFF]])
       \<lparr>current_message := Some (new_WireMessage\<lparr>msg_state := MessageStateSize\<rparr>)\<rparr>)
     = RecvData [0xFF, 0xFF, 0xFF, 0xFF] # []
   \<and> sint (ntohl [0xFF, 0xFF, 0xFF, 0xFF]) < 0
   \<and> (\<exists>s'. receiveNextMessage example_env
              ((example_socket Connected [RecvData [0xFF, 0xFF, 0xFF, 0xFF]])
                 \<lparr>current_message := Some (new_WireMessage\<lparr>msg_state := MessageStateSize\<rparr>)\<rparr>)
            = Inr s'
          \<and> trace s' = [ErrorNotify 0 \<lparr>error_code = ReceiveFailedError,
                             error_message = ''Size invalid'', fatal_error = False\<rparr>,
                           ErrorNotify 1 \<lparr>error_code = ReceiveFailedError,
                             error_message = ''Size invalid'', fatal_error = False\<rparr>]
          \<and> state s' = Connected \<and> next_state s' = Connected
          \<and> current_message s' = Some (new_WireMessage\<lparr>msg_state := MessageStateSize\<rparr>))"
proof -
  let ?m = "new_WireMessage\<lparr>msg_state := MessageStateSize\<rparr>"
  let ?s = "(example_socket Connected [RecvData [0xFF, 0xFF, 0xFF, 0xFF]])
              \<lparr>current_message := Some ?m\<rparr>"
  have h1: "current_message ?s = Some ?m" by simp
  have h2: "msg_state ?m = MessageStateSize" by simp
  have h3: "incoming ?s = RecvData [0xFF, 0xFF, 0xFF, 0xFF] # []"
    by (simp add: example_socket_def)
  have h4: "sint (ntohl [0xFF, 0xFF, 0xFF, 0xFF]) < 0" by (simp add: ntohl.simps)
  have e: "trace ?s = []" "listeners ?s = [0, 1]" "state ?s = Connected"
    "next_state ?s = Connected"
    by (simp_all add: example_socket_def)
  obtain s' where s': "receiveNextMessage example_env ?s = Inr s'"
    "trace s' = trace ?s @
        map (\<lambda>l. ErrorNotify l \<lparr>error_code = ReceiveFailedError,
               error_message = ''Size invalid'', fatal_error = False\<rparr>) (listeners ?s)"
    "state s' = state ?s" "next_state s' = next_state ?s" "current_message s' = Some ?m"
    using size_field_decoding [OF h1 h2 h3, of example_env] h4 by blast
  have "trace s' = [ErrorNotify 0 \<lparr>error_code = ReceiveFailedError,
                             error_message = ''Size invalid'', fatal_error = False\<rparr>,
                           ErrorNotify 1 \<lparr>error_code = ReceiveFailedError,
                             error_message = ''Size invalid'', fatal_error = False\<rparr>]"
    "state s' = Connected" "next_state s' = Connected"
    using s'(2,3,4) unfolding e by simp_all
  with h1 h2 h3 h4 s'(1,5) show ?thesis by blast
qed

text \<open>
  Claim C3 as stated fails for a length that is oversized but not negative. The largest
  one, \<open>2\<^sup>3\<^sup>1 - 1\<close> bytes, is accepted without any error: the frame moves to the type stage
  with that size. And when the allocation of that buffer then fails, the error it leads to
  is the fatal one and the pending state is \<^verbatim>\<open>Error\<close>.
\<close>
theorem oversized_length_accepted:
  "sint (ntohl [0x7F, 0xFF, 0xFF, 0xFF]) = 2147483647
   \<and> receiveNextMessage example_env
         ((example_socket Connected [RecvData [0x7F, 0xFF, 0xFF, 0xFF]])
            \<lparr>current_message := Some (new_WireMessage\<lparr>msg_state := MessageStateSize\<rparr>)\<rparr>)
       = Inr ((example_socket Connected [])
               \<lparr>current_message :=
                  Some (new_WireMessage\<lparr>msg_size := 2147483647,
                          msg_state := MessageStateType\<rparr>),
                 errno := EAGAIN\<rparr>)
   \<and> trace ((example_socket Connected [])
               \<lparr>current_message :=
                  Some (new_WireMessage\<lparr>msg_size := 2147483647,
                          msg_state := MessageStateType\<rparr>),
                 errno := EAGAIN\<rparr>) = []
   \<and> receiveNextMessage (example_env\<lparr>alloc_fails := True\<rparr>)
         ((example_socket Connected
             [RecvData [0x7F, 0xFF, 0xFF, 0xFF], RecvData [0, 0, 0, 1]])
            \<lparr>current_message := Some (new_WireMessage\<lparr>msg_state := MessageStateSize\<rparr>)\<rparr>)
       = Inr ((example_socket Connected [])
               \<lparr>next_state := Error,
                 last_error := \<lparr>error_code = ReceiveFailedError,
                   error_message = ''Out of memory'', fatal_error = True\<rparr>,
                 trace := [ErrorNotify 0 \<lparr>error_code = ReceiveFailedError,
                             error_message = ''Out of memory'', fatal_error = True\<rparr>,
                           ErrorNotify 1 \<lparr>error_code = ReceiveFailedError,
                             error_message = ''Out of memory'', fatal_error = True\<rparr>]\<rparr>)"
  by (simp add: receiveNextMessage_def receive_header_def receive_size_def receive_type_def
        readInt32_def recv_def ntohl.simps fatalError_def setFatalError_def mkError_def
        example_socket_def example_env_def new_WireMessage_def Let_def)

section \<open>Which frames are dispatched\<close>

lemma handled_append: "handled (a @ b) = handled a @ handled b"
  by (induction a rule: handled.induct) simp_all

lemma handled_ErrorNotify: "handled (map (\<lambda>l. ErrorNotify l e) ls) = []"
  by (induction ls) simp_all

lemma handled_MessageReceivedNotify: "handled (map MessageReceivedNotify ls) = []"
  by (induction ls) simp_all

lemma handled_StateChangedNotify: "handled (map (\<lambda>l. StateChangedNotify l x) ls) = []"
  by (induction ls) simp_all

lemma handleMessage_handled:
  "\<exists>ev. trace (handleMessage m s) = trace s @ ev \<and> handled ev = [m]"
  by (auto simp: handleMessage_def error_def Let_def handled_append handled_ErrorNotify
      handled_MessageReceivedNotify split: option.splits)

lemma dispatch_safe_here:
  "stage s \<noteq> MessageStateDispatch \<Longrightarrow> dispatch_safe s s"
  by (simp add: dispatch_safe_def)

lemma dispatch_safe_after:
  "trace s1 = trace s \<Longrightarrow> dispatch_safe s1 s' \<Longrightarrow> dispatch_safe s s'"
  by (simp add: dispatch_safe_def)

lemma stage_None: "current_message s = None \<Longrightarrow> stage s = MessageStateHeader"
  by (simp add: stage_def frame_in_progress_def new_WireMessage_def)

lemma stage_Some: "current_message s = Some m \<Longrightarrow> stage s = msg_state m"
  by (simp add: stage_def frame_in_progress_def)

lemma dispatch_safe_receive_dispatch:
  assumes "receive_dispatch s = Inr s'" and "dispatch_ready s"
  shows "dispatch_safe s s'"
proof (cases "current_message s")
  case None
  then show ?thesis using assms by (simp add: receive_dispatch_def)
next
  case (Some m)
  show ?thesis
  proof (cases "msg_state m = MessageStateDispatch")
    case True
    then have s': "s' = (handleMessage m s)\<lparr>current_message := None\<rparr>"
      using assms Some by (simp add: receive_dispatch_def)
    have d: "dispatchable m" using assms(2) Some True by (simp add: dispatch_ready_def)
    obtain ev where "trace (handleMessage m s) = trace s @ ev" "handled ev = [m]"
      using handleMessage_handled by blast
    then have "trace s' = trace s @ ev \<and> list_all dispatchable (handled ev)"
      using s' d by simp
    moreover have "stage s' = MessageStateHeader" using s' by (simp add: stage_None)
    ultimately show ?thesis unfolding dispatch_safe_def by auto
  next
    case False
    then have "s' = s" using assms Some by (simp add: receive_dispatch_def)
    then show ?thesis using False Some by (simp add: dispatch_safe_here stage_Some)
  qed
qed


lemma dispatch_ready_other:
  "msg_state m \<noteq> MessageStateDispatch \<Longrightarrow> dispatch_ready (s\<lparr>current_message := Some m\<rparr>)"
  by (simp add: dispatch_ready_def)

lemma readBytes_trace: "readBytes n s = (r, bs, s1) \<Longrightarrow> trace s1 = trace s"
  by (drule readBytes_fields) (erule ssubst, simp)

lemma readBytes_current_message:
  "readBytes n s = (r, bs, s1) \<Longrightarrow> current_message s1 = current_message s"
  by (drule readBytes_fields) (erule ssubst, simp)

lemma readInt32_trace: "readInt32 d s = (r, v, s1) \<Longrightarrow> trace s1 = trace s"
  by (drule readInt32_fields) (erule ssubst, simp)

lemma dispatch_safe_receive_data:
  assumes "receive_data s = Inr s'" and "dispatch_ready s"
  shows "dispatch_safe s s'"
proof (cases "current_message s")
  case None
  then show ?thesis using assms by (simp add: receive_data_def)
next
  case (Some m)
  show ?thesis
  proof (cases "msg_state m = MessageStateData")
    case False
    then show ?thesis
      using assms Some by (simp add: receive_data_def dispatch_safe_receive_dispatch)
  next
    case True
    obtain r bs s1 where rb: "readBytes (getRemainingSize m) s = (r, bs, s1)"
      by (cases "readBytes (getRemainingSize m) s")
    have tr: "trace s1 = trace s" using rb by (rule readBytes_trace)
    have cm: "current_message s1 = Some m" using rb Some by (simp add: readBytes_current_message)
    let ?m1 = "m\<lparr>msg_data := store_at (msg_size_received m) bs (msg_data m),
                  msg_size_received := msg_size_received m + nat r\<rparr>"
    have "dispatch_safe s1 s'"
    proof (cases "r = -1")
      case failed: True
      show ?thesis
      proof (cases "errno s1 \<noteq> EAGAIN")
        case True
        then have "receive_dispatch (s1\<lparr>current_message := None\<rparr>) = Inr s'"
          using assms(1) Some \<open>msg_state m = MessageStateData\<close> rb failed
          by (simp add: receive_data_def)
        then show ?thesis by (simp add: receive_dispatch_def)
      next
        case False
        then have "receive_dispatch s1 = Inr s'"
          using assms(1) Some \<open>msg_state m = MessageStateData\<close> rb failed
          by (simp add: receive_data_def)
        then have "s' = s1" using cm \<open>msg_state m = MessageStateData\<close>
          by (simp add: receive_dispatch_def)
        then show ?thesis
          using cm \<open>msg_state m = MessageStateData\<close>
          by (simp add: dispatch_safe_here stage_Some)
      qed
    next
      case got: False
      show ?thesis
      proof (cases "isComplete ?m1")
        case complete: True
        show ?thesis
        proof (cases "msg_valid m")
          case False
          then have "s' = s1\<lparr>current_message := None\<rparr>"
            using assms(1) Some \<open>msg_state m = MessageStateData\<close> rb got complete
            by (simp add: receive_data_def Let_def)
          then show ?thesis by (simp add: dispatch_safe_def stage_None)
        next
          case True
          let ?s2 = "s1\<lparr>current_message := Some (?m1\<lparr>msg_state := MessageStateDispatch\<rparr>)\<rparr>"
          have rd: "receive_dispatch ?s2 = Inr s'"
            using assms(1) Some \<open>msg_state m = MessageStateData\<close> rb got complete True
            by (simp add: receive_data_def Let_def)
          have "dispatchable (?m1\<lparr>msg_state := MessageStateDispatch\<rparr>)"
            using complete True by (simp add: dispatchable_def isComplete_def)
          then have "dispatch_ready ?s2" by (simp add: dispatch_ready_def)
          with rd have "dispatch_safe ?s2 s'" by (rule dispatch_safe_receive_dispatch)
          then show ?thesis by (simp add: dispatch_safe_def)
        qed
      next
        case False
        let ?s2 = "s1\<lparr>current_message := Some ?m1\<rparr>"
        have "receive_dispatch ?s2 = Inr s'"
          using assms(1) Some \<open>msg_state m = MessageStateData\<close> rb got False
          by (simp add: receive_data_def Let_def)
        then have "s' = ?s2" using \<open>msg_state m = MessageStateData\<close>
          by (simp add: receive_dispatch_def)
        then show ?thesis using \<open>msg_state m = MessageStateData\<close>
          by (simp add: dispatch_safe_def stage_def frame_in_progress_def)
      qed
    qed
    with tr show ?thesis by (rule dispatch_safe_after)
  qed
qed

lemma dispatch_safe_error:
  "stage s \<noteq> MessageStateDispatch \<Longrightarrow> dispatch_safe s (error c m s)"
  by (simp add: dispatch_safe_def error_def Let_def handled_ErrorNotify stage_def
        frame_in_progress_def)

lemma dispatch_safe_fatalError: "dispatch_safe s (fatalError c m s)"
  by (simp add: dispatch_safe_def fatalError_def Let_def handled_ErrorNotify stage_None)

lemma dispatch_safe_receive_type:
  assumes "receive_type env s = Inr s'" and "dispatch_ready s"
  shows "dispatch_safe s s'"
proof (cases "current_message s")
  case None
  then show ?thesis using assms by (simp add: receive_type_def)
next
  case (Some m)
  show ?thesis
  proof (cases "msg_state m = MessageStateType")
    case False
    then show ?thesis
      using assms Some by (simp add: receive_type_def dispatch_safe_receive_data)
  next
    case True
    obtain r v s1 where ri: "readInt32 0 s = (r, v, s1)" by (cases "readInt32 0 s")
    have tr: "trace s1 = trace s" using ri by (rule readInt32_trace)
    have cm: "current_message s1 = Some m" using ri Some by (simp add: readInt32_current_message)
    let ?m1 = "if r \<noteq> 0 then m\<lparr>msg_valid := False\<rparr> else m"
    have "dispatch_safe s1 s'"
    proof (cases "r \<noteq> 0 \<and> errno s1 = EAGAIN")
      case True
      then have "s' = s1" using assms(1) Some \<open>msg_state m = MessageStateType\<close> ri
        by (simp add: receive_type_def)
      then show ?thesis using cm \<open>msg_state m = MessageStateType\<close>
        by (simp add: dispatch_safe_here stage_Some)
    next
      case retry: False
      show ?thesis
      proof (cases "alloc_fails env")
        case True
        then have "s' = fatalError ReceiveFailedError ''Out of memory''
                          (s1\<lparr>current_message := Some ?m1\<rparr>)"
          using assms(1) Some \<open>msg_state m = MessageStateType\<close> ri retry
          by (simp add: receive_type_def Let_def split: if_splits)
        then have "dispatch_safe (s1\<lparr>current_message := Some ?m1\<rparr>) s'"
          by (simp add: dispatch_safe_fatalError)
        then show ?thesis by (simp add: dispatch_safe_def)
      next
        case False
        let ?s2 = "s1\<lparr>current_message :=
                      Some ((allocateData ?m1)\<lparr>msg_type := v,
                              msg_state := MessageStateData\<rparr>)\<rparr>"
        have "receive_data ?s2 = Inr s'"
          using assms(1) Some \<open>msg_state m = MessageStateType\<close> ri retry False
          by (simp add: receive_type_def Let_def split: if_splits)
        moreover have "dispatch_ready ?s2" by (simp add: dispatch_ready_other)
        ultimately have "dispatch_safe ?s2 s'" by (rule dispatch_safe_receive_data)
        then show ?thesis by (simp add: dispatch_safe_def)
      qed
    qed
    with tr show ?thesis by (rule dispatch_safe_after)
  qed
qed


lemma dispatch_safe_receive_size:
  assumes "receive_size env s = Inr s'" and "dispatch_ready s"
  shows "dispatch_safe s s'"
proof (cases "current_message s")
  case None
  then show ?thesis using assms by (simp add: receive_size_def)
next
  case (Some m)
  show ?thesis
  proof (cases "msg_state m = MessageStateSize")
    case False
    then show ?thesis
      using assms Some by (simp add: receive_size_def dispatch_safe_receive_type)
  next
    case True
    obtain r v s1 where ri: "readInt32 0 s = (r, v, s1)" by (cases "readInt32 0 s")
    have tr: "trace s1 = trace s" using ri by (rule readInt32_trace)
    have cm: "current_message s1 = Some m" using ri Some by (simp add: readInt32_current_message)
    have st: "stage s1 \<noteq> MessageStateDispatch" using cm True by (simp add: stage_Some)
    have "dispatch_safe s1 s'"
    proof (cases "r \<noteq> 0 \<or> sint v < 0")
      case True
      then have "s' = s1 \<or> s' = error ReceiveFailedError ''Size invalid'' s1"
        using assms(1) Some \<open>msg_state m = MessageStateSize\<close> ri
        by (auto simp: receive_size_def split: if_splits)
      then show ?thesis using st by (auto simp: dispatch_safe_here dispatch_safe_error)
    next
      case False
      let ?s2 = "s1\<lparr>current_message :=
                     Some (m\<lparr>msg_size := nat (sint v), msg_state := MessageStateType\<rparr>)\<rparr>"
      have "receive_type env ?s2 = Inr s'"
        using assms(1) Some \<open>msg_state m = MessageStateSize\<close> ri False
        by (simp add: receive_size_def)
      moreover have "dispatch_ready ?s2" by (simp add: dispatch_ready_other)
      ultimately have "dispatch_safe ?s2 s'" by (rule dispatch_safe_receive_type)
      then show ?thesis by (simp add: dispatch_safe_def)
    qed
    with tr show ?thesis by (rule dispatch_safe_after)
  qed
qed

lemma dispatch_safe_receive_header:
  assumes "receive_header env s = Inr s'" and "dispatch_ready s"
  shows "dispatch_safe s s'"
proof (cases "current_message s")
  case None
  then show ?thesis using assms by (simp add: receive_header_def)
next
  case (Some m)
  show ?thesis
  proof (cases "msg_state m = MessageStateHeader")
    case False
    then show ?thesis
      using assms Some by (simp add: receive_header_def dispatch_safe_receive_size)
  next
    case True
    obtain r v s1 where ri: "readInt32 0 s = (r, v, s1)" by (cases "readInt32 0 s")
    have tr: "trace s1 = trace s" using ri by (rule readInt32_trace)
    have cm: "current_message s1 = Some m" using ri Some by (simp add: readInt32_current_message)
    have st: "stage s1 \<noteq> MessageStateDispatch" using cm True by (simp add: stage_Some)
    have "dispatch_safe s1 s'"
    proof (cases "v = 0 \<or> SIG v \<noteq> ARCUS_SIGNATURE")
      case True
      then have "s' = s1 \<or> s' = error ReceiveFailedError ''Header mismatch'' s1"
        using assms(1) Some \<open>msg_state m = MessageStateHeader\<close> ri
        by (auto simp: receive_header_def split: if_splits)
      then show ?thesis using st by (auto simp: dispatch_safe_here dispatch_safe_error)
    next
      case False
      let ?s2 = "s1\<lparr>current_message := Some (m\<lparr>msg_state := MessageStateSize\<rparr>)\<rparr>"
      have "receive_size env ?s2 = Inr s'"
        using assms(1) Some \<open>msg_state m = MessageStateHeader\<close> ri False
        by (simp add: receive_header_def)
      moreover have "dispatch_ready ?s2" by (simp add: dispatch_ready_other)
      ultimately have "dispatch_safe ?s2 s'" by (rule dispatch_safe_receive_size)
      then show ?thesis by (simp add: dispatch_safe_def)
    qed
    with tr show ?thesis by (rule dispatch_safe_after)
  qed
qed

lemma dispatch_safe_receiveNextMessage:
  assumes "receiveNextMessage env s = Inr s'" and "stage s \<noteq> MessageStateDispatch"
  shows "dispatch_safe s s'"
proof -
  let ?s0 = "s\<lparr>current_message := Some (frame_in_progress s)\<rparr>"
  have "receive_header env ?s0 = Inr s'" using assms(1) by (simp add: receiveNextMessage_frame)
  moreover have "dispatch_ready ?s0"
    using assms(2) by (simp add: dispatch_ready_other stage_def)
  ultimately have "dispatch_safe ?s0 s'" by (rule dispatch_safe_receive_header)
  then show ?thesis by (simp add: dispatch_safe_def)
qed

lemma dispatch_safe_trans:
  assumes "dispatch_safe s s1" and "dispatch_safe s1 s2"
  shows "dispatch_safe s s2"
proof -
  obtain e1 where e1: "trace s1 = trace s @ e1" "list_all dispatchable (handled e1)"
    using assms(1) unfolding dispatch_safe_def by blast
  obtain e2 where e2: "trace s2 = trace s1 @ e2" "list_all dispatchable (handled e2)"
    using assms(2) unfolding dispatch_safe_def by blast
  have "trace s2 = trace s @ (e1 @ e2) \<and> list_all dispatchable (handled (e1 @ e2))"
    using e1 e2 by (simp add: handled_append)
  then show ?thesis using assms(2) unfolding dispatch_safe_def by blast
qed

lemma dispatch_safe_sendQueued:
  "stage s \<noteq> MessageStateDispatch \<Longrightarrow> dispatch_safe s (sendQueued s)"
proof -
  have "handled (concat (map (spec_frame_sends fd) ms)) = []" for fd ms
    by (induction ms) (simp_all add: spec_frame_sends_def)
  moreover have "handled (drain_accesses q) = []" for q
    by (induction q) simp_all
  moreover assume "stage s \<noteq> MessageStateDispatch"
  ultimately show ?thesis
    by (simp add: dispatch_safe_def sendQueued_frame handled_append stage_def
          frame_in_progress_def)
qed

lemma dispatch_safe_checkConnectionState:
  "stage s \<noteq> MessageStateDispatch \<Longrightarrow> dispatch_safe s (checkConnectionState env s)"
  by (simp add: dispatch_safe_def checkConnectionState_trace checkConnectionState_fields
        handled_ErrorNotify stage_def frame_in_progress_def)

lemma dispatch_safe_run_commit:
  "stage s \<noteq> MessageStateDispatch \<Longrightarrow> dispatch_safe s (run_commit s)"
  by (simp add: dispatch_safe_def run_commit_def handled_StateChangedNotify stage_def
        frame_in_progress_def)

lemma dispatch_safe_stage: "dispatch_safe s s' \<Longrightarrow> stage s' \<noteq> MessageStateDispatch"
  by (simp add: dispatch_safe_def)

lemma dispatch_safe_run_switch:
  assumes "run_switch env s = Inr p" and "stage s \<noteq> MessageStateDispatch"
  shows "dispatch_safe s p"
proof (cases "state s = Connected")
  case True
  obtain s3 where r: "receiveNextMessage env (sendQueued s) = Inr s3"
    and p: "p = (if next_state s3 \<noteq> Error then checkConnectionState env s3 else s3)"
    using assms(1) True by (auto simp: run_switch_connected split: sum.splits if_splits)
  have a: "dispatch_safe s (sendQueued s)" using assms(2) by (rule dispatch_safe_sendQueued)
  have b: "dispatch_safe (sendQueued s) s3"
    using r dispatch_safe_stage [OF a] by (rule dispatch_safe_receiveNextMessage)
  have c: "dispatch_safe s3 p"
    unfolding p using dispatch_safe_stage [OF b]
    by (simp add: dispatch_safe_checkConnectionState dispatch_safe_here)
  from a b c show ?thesis by (blast intro: dispatch_safe_trans)
next
  case False
  then show ?thesis
    using assms
    by (cases "state s")
       (auto simp: run_switch_def fatalError_def setSocketReceiveTimeout_def returned_def
          Let_def dispatch_safe_def handled_append handled_ErrorNotify stage_def
          frame_in_progress_def new_WireMessage_def split: if_splits)
qed

lemma dispatch_safe_run_iteration:
  assumes "run_iteration env s = Inr s'" and "stage s \<noteq> MessageStateDispatch"
  shows "dispatch_safe s s'"
proof -
  obtain p where p: "run_switch env s = Inr p" "s' = run_commit p"
    using assms(1) by (auto simp: run_iteration_def split: sum.splits)
  have a: "dispatch_safe s p" using p(1) assms(2) by (rule dispatch_safe_run_switch)
  have "dispatch_safe p s'"
    unfolding p(2) using dispatch_safe_stage [OF a] by (rule dispatch_safe_run_commit)
  with a show ?thesis by (rule dispatch_safe_trans)
qed

lemma dispatch_safe_run:
  "run envs s = Some (Inr s') \<Longrightarrow> stage s \<noteq> MessageStateDispatch \<Longrightarrow> dispatch_safe s s'"
proof (induction envs arbitrary: s)
  case Nil
  then show ?case by (simp add: dispatch_safe_here split: if_splits)
next
  case (Cons env envs)
  show ?case
  proof (cases "running s")
    case False
    then show ?thesis using Cons.prems by (simp add: dispatch_safe_here)
  next
    case True
    then obtain s1 where s1: "run_iteration env s = Inr s1" "run envs s1 = Some (Inr s')"
      using Cons.prems(1) by (auto split: sum.splits)
    have a: "dispatch_safe s s1" using s1(1) Cons.prems(2) by (rule dispatch_safe_run_iteration)
    have "dispatch_safe s1 s'" using s1(2) dispatch_safe_stage [OF a] by (rule Cons.IH)
    with a show ?thesis by (rule dispatch_safe_trans)
  qed
qed


lemma invalid_at_type_stage:
  assumes "current_message s = Some m" and "msg_state m = MessageStateType"
    and "fst (recv 4 s) \<noteq> 4" and "errno (snd (snd (recv 4 s))) \<noteq> EAGAIN"
    and "\<not> alloc_fails env"
  shows "receiveNextMessage env s =
           receive_data ((snd (snd (recv 4 s)))
             \<lparr>current_message :=
                Some (m\<lparr>msg_valid := False, msg_data := replicate (msg_size m) 0,
                       msg_type := 0, msg_state := MessageStateData\<rparr>)\<rparr>)"
  using assms
  by (simp add: receiveNextMessage_def receive_header_def receive_size_def receive_type_def
        readInt32_failed allocateData_def)

lemma invalid_at_data_stage:
  assumes "current_message s = Some m" and "msg_state m = MessageStateData"
    and "\<not> msg_valid m" and "incoming s = RecvData bs # rest"
  shows "\<exists>s'. receiveNextMessage env s = Inr s'
           \<and> trace s' = trace s \<and> receiveQueue s' = receiveQueue s
           \<and> last_error s' = last_error s
           \<and> state s' = state s \<and> next_state s' = next_state s
           \<and> current_message s' =
               (if msg_size m \<le> msg_size_received m + length (take (getRemainingSize m) bs)
                then None
                else Some (m\<lparr>msg_data := store_at (msg_size_received m)
                                          (take (getRemainingSize m) bs) (msg_data m),
                            msg_size_received :=
                              msg_size_received m + length (take (getRemainingSize m) bs)\<rparr>))"
  using assms
  by (simp add: receiveNextMessage_def receive_header_def receive_size_def receive_type_def
        receive_data_def receive_dispatch_def readBytes_def recv_def isComplete_def Let_def)


text \<open>
  Claim C10. When the read of the type fails and \<^verbatim>\<open>errno\<close> is not
  \<^verbatim>\<open>EAGAIN\<close>, the frame is marked invalid, its payload buffer is allocated with the
  declared size all the same, and the cycle goes on at the data stage. At the data stage an
  invalid frame takes the bytes a read delivers like any other: while it is incomplete it is
  kept, with the bytes stored and counted, for the next cycle; once complete it is dropped,
  with nothing appended to the trace (no call of \<^verbatim>\<open>handleMessage\<close>, no notification)
  and nothing queued or recorded. And in a receive cycle, in a loop iteration and in a whole
  run of the loop that start with no frame waiting for dispatch, every frame
  \<^verbatim>\<open>handleMessage\<close> is entered with is complete and valid.
\<close>
theorem invalid_frame_never_dispatched:
  "(current_message s = Some m \<and> msg_state m = MessageStateType
      \<and> fst (recv 4 s) \<noteq> 4 \<and> errno (snd (snd (recv 4 s))) \<noteq> EAGAIN
      \<and> \<not> alloc_fails env \<longrightarrow>
      trace (snd (snd (recv 4 s))) = trace s
      \<and> receiveNextMessage env s =
           receive_data ((snd (snd (recv 4 s)))
             \<lparr>current_message :=
                Some (m\<lparr>msg_valid := False, msg_data := replicate (msg_size m) 0,
                       msg_type := 0, msg_state := MessageStateData\<rparr>)\<rparr>))
   \<and> (current_message t = Some f \<and> msg_state f = MessageStateData
      \<and> \<not> msg_valid f \<and> incoming t = RecvData bs # rest \<longrightarrow>
      (\<exists>t'. receiveNextMessage env t = Inr t'
           \<and> trace t' = trace t \<and> receiveQueue t' = receiveQueue t
           \<and> last_error t' = last_error t
           \<and> state t' = state t \<and> next_state t' = next_state t
           \<and> current_message t' =
               (if msg_size f \<le> msg_size_received f + length (take (getRemainingSize f) bs)
                then None
                else Some (f\<lparr>msg_data := store_at (msg_size_received f)
                                          (take (getRemainingSize f) bs) (msg_data f),
                            msg_size_received :=
                              msg_size_received f + length (take (getRemainingSize f) bs)\<rparr>))))
   \<and> (stage u \<noteq> MessageStateDispatch \<and> receiveNextMessage env u = Inr u' \<longrightarrow>
      list_all dispatchable (handled (drop (length (trace u)) (trace u')))
      \<and> stage u' \<noteq> MessageStateDispatch)
   \<and> (stage v \<noteq> MessageStateDispatch \<and> run_iteration env v = Inr v' \<longrightarrow>
      list_all dispatchable (handled (drop (length (trace v)) (trace v')))
      \<and> stage v' \<noteq> MessageStateDispatch)
   \<and> (stage w \<noteq> MessageStateDispatch \<and> run envs w = Some (Inr w') \<longrightarrow>
      list_all dispatchable (handled (drop (length (trace w)) (trace w'))))"
proof -
  have safe: "list_all dispatchable (handled (drop (length (trace x)) (trace x')))
              \<and> stage x' \<noteq> MessageStateDispatch"
    if ds: "dispatch_safe x x'" for x x'
  proof -
    obtain ev where "trace x' = trace x @ ev" "list_all dispatchable (handled ev)"
      using ds unfolding dispatch_safe_def by blast
    then have "list_all dispatchable (handled (drop (length (trace x)) (trace x')))" by simp
    then show ?thesis using ds by (simp add: dispatch_safe_def)
  qed
  have a: "trace (snd (snd (recv 4 s))) = trace s"
    using recv_fields [of 4 s "fst (recv 4 s)" "fst (snd (recv 4 s))" "snd (snd (recv 4 s))"]
    by simp (erule ssubst, simp)
  note b = invalid_at_type_stage [of s m env]
  note c = invalid_at_data_stage [of t f bs rest env]
  note d = safe [OF dispatch_safe_receiveNextMessage [of env u u']]
  note e = safe [OF dispatch_safe_run_iteration [of env v v']]
  note g = safe [OF dispatch_safe_run [of envs w w']]
  from a b c d e g show ?thesis by blast
qed


theorem invalid_frame_never_dispatched_witness:
  "receiveNextMessage example_env
      ((example_socket Connected [RecvError 104, RecvData [1, 2]])
         \<lparr>current_message :=
            Some (new_WireMessage\<lparr>msg_size := 3, msg_state := MessageStateType\<rparr>)\<rparr>)
     = Inr ((example_socket Connected [])
             \<lparr>current_message :=
                Some \<lparr>msg_state = MessageStateData, msg_size = 3, msg_size_received = 2,
                      msg_type = 0, msg_data = [1, 2, 0], msg_valid = False\<rparr>,
               errno := 104\<rparr>)
   \<and> (\<exists>t'. receiveNextMessage example_env
              ((example_socket Connected [RecvData [3]])
                 \<lparr>current_message :=
                    Some \<lparr>msg_state = MessageStateData, msg_size = 3, msg_size_received = 2,
                          msg_type = 0, msg_data = [1, 2, 0], msg_valid = False\<rparr>,
                   errno := 104\<rparr>) = Inr t'
          \<and> trace t' = [] \<and> receiveQueue t' = [] \<and> current_message t' = None
          \<and> state t' = Connected \<and> next_state t' = Connected)
   \<and> receiveNextMessage example_env
        (example_socket Connected
           [RecvData [0x2B, 0xAD, 1, 0], RecvData [0, 0, 0, 1], RecvData [0, 0, 0, 7],
            RecvData [9]])
       = Inr ((example_socket Connected [])
               \<lparr>last_error := \<lparr>error_code = UnknownMessageTypeError,
                    error_message = ''Unknown message type'', fatal_error = False\<rparr>,
                 trace :=
                   [HandleMessageCall
                      \<lparr>msg_state = MessageStateDispatch, msg_size = 1, msg_size_received = 1,
                       msg_type = 7, msg_data = [9], msg_valid = True\<rparr>,
                    ErrorNotify 0 \<lparr>error_code = UnknownMessageTypeError,
                      error_message = ''Unknown message type'', fatal_error = False\<rparr>,
                    ErrorNotify 1 \<lparr>error_code = UnknownMessageTypeError,
                      error_message = ''Unknown message type'', fatal_error = False\<rparr>]\<rparr>)
   \<and> list_all dispatchable
        (handled
           [HandleMessageCall
              \<lparr>msg_state = MessageStateDispatch, msg_size = 1, msg_size_received = 1,
               msg_type = 7, msg_data = [9], msg_valid = True\<rparr>,
            ErrorNotify 0 \<lparr>error_code = UnknownMessageTypeError,
              error_message = ''Unknown message type'', fatal_error = False\<rparr>,
            ErrorNotify 1 \<lparr>error_code = UnknownMessageTypeError,
              error_message = ''Unknown message type'', fatal_error = False\<rparr>])
   \<and> (\<exists>v'. run_iteration example_env (example_socket Closing []) = Inr v'
          \<and> list_all dispatchable (handled (trace v'))
          \<and> stage v' \<noteq> MessageStateDispatch)
   \<and> (\<exists>w'. run [example_env] (example_socket Closing []) = Some (Inr w')
          \<and> list_all dispatchable (handled (trace w')))"
proof -
  let ?m = "new_WireMessage\<lparr>msg_size := 3, msg_state := MessageStateType\<rparr>"
  let ?s = "(example_socket Connected [RecvError 104, RecvData [1, 2]])
              \<lparr>current_message := Some ?m\<rparr>"
  let ?f = "\<lparr>msg_state = MessageStateData, msg_size = 3, msg_size_received = 2,
             msg_type = 0, msg_data = [1, 2, 0], msg_valid = False\<rparr>"
  let ?t = "(example_socket Connected [RecvData [3]])\<lparr>current_message := Some ?f, errno := 104\<rparr>"
  let ?u = "example_socket Connected
              [RecvData [0x2B, 0xAD, 1, 0], RecvData [0, 0, 0, 1], RecvData [0, 0, 0, 7],
               RecvData [9]]"
  let ?d = "\<lparr>msg_state = MessageStateDispatch, msg_size = 1, msg_size_received = 1,
             msg_type = 7, msg_data = [9], msg_valid = True\<rparr>"
  let ?e = "\<lparr>error_code = UnknownMessageTypeError,
             error_message = ''Unknown message type'', fatal_error = False\<rparr>"
  let ?u' = "(example_socket Connected [])
               \<lparr>last_error := ?e,
                 trace := [HandleMessageCall ?d, ErrorNotify 0 ?e, ErrorNotify 1 ?e]\<rparr>"
  let ?c = "example_socket Closing []"
  let ?c' = "(example_socket Closed [])
               \<lparr>trace := [SockClose 3, StateChangedNotify 0 Closed,
                           StateChangedNotify 1 Closed]\<rparr>"
  note a = invalid_frame_never_dispatched
    [of ?s ?m example_env ?t ?f "[3]" "[]" ?u ?u' ?c ?c' ?c "[example_env]" ?c']
  have a1: "current_message ?s = Some ?m \<and> msg_state ?m = MessageStateType
      \<and> fst (recv 4 ?s) \<noteq> 4 \<and> errno (snd (snd (recv 4 ?s))) \<noteq> EAGAIN
      \<and> \<not> alloc_fails example_env"
    by (simp add: recv_def example_socket_def example_env_def EAGAIN_def)
  have a2: "receive_data ((snd (snd (recv 4 ?s)))
             \<lparr>current_message :=
                Some (?m\<lparr>msg_valid := False, msg_data := replicate (msg_size ?m) 0,
                       msg_type := 0, msg_state := MessageStateData\<rparr>)\<rparr>)
           = Inr ((example_socket Connected [])\<lparr>current_message := Some ?f, errno := 104\<rparr>)"
    by (simp add: receive_data_def receive_dispatch_def readBytes_def recv_def
          getRemainingSize_def store_at_def isComplete_def example_socket_def
          new_WireMessage_def Let_def numeral_3_eq_3)
  have b1: "current_message ?t = Some ?f \<and> msg_state ?f = MessageStateData
      \<and> \<not> msg_valid ?f \<and> incoming ?t = RecvData [3] # []"
    by (simp add: example_socket_def)
  have b2: "trace ?t = []" "receiveQueue ?t = []" "state ?t = Connected"
    "next_state ?t = Connected"
    "msg_size ?f \<le> msg_size_received ?f + length (take (getRemainingSize ?f) [3::byte])"
    by (simp_all add: example_socket_def getRemainingSize_def)
  have c1: "stage ?u \<noteq> MessageStateDispatch"
    by (simp add: stage_def frame_in_progress_def example_socket_def new_WireMessage_def)
  have c2: "receiveNextMessage example_env ?u = Inr ?u'"
    by (simp add: receiveNextMessage_def receive_header_def receive_size_def receive_type_def
          receive_data_def receive_dispatch_def readInt32_def readBytes_def recv_def
          ntohl.simps SIG_def ARCUS_SIGNATURE_def allocateData_def getRemainingSize_def
          store_at_def isComplete_def handleMessage_def error_def mkError_def
          example_socket_def example_env_def new_WireMessage_def Let_def)
  have c3: "trace ?u = []" "trace ?u' = [HandleMessageCall ?d, ErrorNotify 0 ?e, ErrorNotify 1 ?e]"
    by (simp_all add: example_socket_def)
  have d1: "stage ?c \<noteq> MessageStateDispatch"
    by (simp add: stage_def frame_in_progress_def example_socket_def new_WireMessage_def)
  have d2: "run_iteration example_env ?c = Inr ?c'"
    by (simp add: run_iteration_def run_switch_def run_commit_def returned_def
          example_socket_def example_env_def)
  have d3: "run [example_env] ?c = Some (Inr ?c')"
    using d2 by (simp add: running_def example_socket_def)
  have d4: "trace ?c = []" by (simp add: example_socket_def)
  have r1: "receiveNextMessage example_env ?s
              = Inr ((example_socket Connected [])\<lparr>current_message := Some ?f, errno := 104\<rparr>)"
    using a a1 a2 by simp
  have r2: "\<exists>t'. receiveNextMessage example_env ?t = Inr t'
          \<and> trace t' = [] \<and> receiveQueue t' = [] \<and> current_message t' = None
          \<and> state t' = Connected \<and> next_state t' = Connected"
    using a b1 b2 by auto
  have r3: "list_all dispatchable (handled [HandleMessageCall ?d, ErrorNotify 0 ?e, ErrorNotify 1 ?e])"
    using a c1 c2 c3 by simp
  have r4: "list_all dispatchable (handled (trace ?c')) \<and> stage ?c' \<noteq> MessageStateDispatch"
    using a d1 d2 d4 by simp
  have r5: "list_all dispatchable (handled (trace ?c'))"
    using a d1 d3 d4 by simp
  from r1 r2 c2 r3 r4 r5 d2 d3 show ?thesis by blast
qed

end
